theory Spec2Isabelle
  imports Complex_Main
begin

section \<open>The chat client of the move-quote intake (frontend/src/App.jsx)\<close>

text \<open>
  The repository's source is the React client \<^verbatim>\<open>App.jsx\<close> (\<^verbatim>\<open>src/unnamed/part_000\<close> is an
  earlier copy of it, with the same \<^verbatim>\<open>sendMessage\<close>, \<^verbatim>\<open>confirmItems\<close>, \<^verbatim>\<open>deleteItem\<close>, typing
  effect and quick options, and without the address cards): one component whose state is a
  set of \<^verbatim>\<open>useState\<close> cells and \<^verbatim>\<open>useRef\<close> boxes, mutated by the WebSocket message handler,
  by the user's actions and by timers. The embedding is explicit state passing: the cells and
  boxes are the fields of one record, every handler is a function from state to state, and
  every effect (a frame handed to the socket, an HTTP upload, a toast, a timer set) is a
  field of the record that the handler extends.
\<close>

subsection \<open>Strings\<close>

text \<open>
  A JavaScript string is modelled as the list of its Unicode code points, which is what
  \<^verbatim>\<open>for (const char of s)\<close> iterates over; \<^verbatim>\<open>+\<close> on strings is \<open>@\<close>.
\<close>

type_synonym jstring = "nat list"

definition ascii :: "string \<Rightarrow> jstring" where
  "ascii cs = map of_char cs"

subsection \<open>Data\<close>

text \<open>Items as \<^verbatim>\<open>handleFileSelected\<close> builds them (id, name, name_ja, category, count,
  confidence, note).\<close>

record item =
  item_id :: nat
  item_name :: jstring
  item_name_ja :: jstring
  item_category :: jstring
  item_count :: nat
  item_confidence :: rat
  item_note :: jstring

record address =
  formatted_address :: jstring
  postal_code :: jstring
  prefecture :: jstring
  city :: jstring
  district :: jstring

text \<open>The \<^verbatim>\<open>data\<close> object of a \<^verbatim>\<open>ui_component\<close>: \<^verbatim>\<open>address_type\<close> may be absent.\<close>

record ui_data =
  address_type :: "jstring option"
  candidates :: "address list"
  original_input :: jstring
  data_address :: address

datatype ui_type = UiNone | ItemEvaluation | AddressConfirm | AddressSelection | UiOther jstring

record ui_component =
  ui_type :: ui_type
  ui_data :: "ui_data option"

datatype role = User | Assistant | OtherRole jstring

text \<open>The \<^verbatim>\<open>type\<close> of an entry of \<^verbatim>\<open>messages\<close>: absent for a text bubble, or one of
  \<^verbatim>\<open>'items_card'\<close>, \<^verbatim>\<open>'address_confirm_card'\<close>, \<^verbatim>\<open>'address_selection_card'\<close>.\<close>

datatype msg_type = Plain | ItemsCard | AddressConfirmCard | AddressSelectionCard

record msg =
  role :: role
  mtype :: msg_type
  content :: jstring
  streaming :: bool
  confirmed :: bool
  addressType :: "jstring option"
  mdata :: "ui_data option"
  mitems :: "item list"

record completion =
  completion_rate :: rat
  can_submit :: bool

datatype field_status = NotCollected | Asked | InProgress | Baseline | Skipped

record field_info =
  status :: "field_status option"
  needs_confirmation :: bool

text \<open>\<^verbatim>\<open>fields_status\<close> is a JSON object: an association list from field key to record.\<close>

type_synonym fields = "(jstring \<times> field_info) list"

record pending_address =
  pa_type :: msg_type
  pa_addressType :: "jstring option"
  pa_data :: "ui_data option"

subsection \<open>The socket and the other effects\<close>

text \<open>\<^verbatim>\<open>WebSocket.readyState\<close>. \<^verbatim>\<open>send\<close> throws while the socket is connecting, transmits
  while it is open and discards the frame once it is closing or closed.\<close>

datatype ready_state = Connecting | Open | Closing | Closed

datatype outbound =
    OutMessage jstring
  | OutImageUploaded jstring "item list"
  | OutItemsConfirmed "item list"
  | OutAddressSelected "jstring option" address
  | OutAddressConfirmed "jstring option" bool
  | OutResetSession

text \<open>The toasts (\<^verbatim>\<open>message.error\<close>, \<^verbatim>\<open>message.success\<close>), named by what they say. An
  optional argument is the text the server or the error supplied; without it the toast shows
  its fixed default text.\<close>

datatype notice =
    ErrorNotice "jstring option"
  | UnsupportedTypeNotice
  | TooLargeNotice
  | UploadFailedNotice "jstring option"
  | RecognitionFailedNotice "jstring option"
  | ProcessingFailedNotice "jstring option"
  | SocketErrorNotice
  | RecognizedNotice nat

record upload_file =
  file_type :: jstring
  file_size :: nat

subsection \<open>The component state\<close>

record app_state =
  messages :: "msg list"
  inputValue :: jstring
  isConnected :: bool
  isLoading :: bool
  currentPhase :: nat
  fieldsStatus :: fields
  quickOptions :: "jstring list"
  uiComponent :: ui_component
  completion :: completion
  pendingItems :: "item list"
  confirmedItems :: "item list"
  isRecognizing :: bool
  recognitionStep :: nat
  itemsJustConfirmed :: bool
  isVerifyingAddress :: bool
  addressVerifyStep :: nat
  pendingAddressData :: "pending_address option"
  textQueue :: jstring
  isTyping :: bool
  lastOptions :: "jstring list"
  addedAddressCards :: "jstring \<Rightarrow> bool"
  selectedOptions :: "jstring list"
  ws :: "ready_state option"
  sessionToken :: "jstring option"
  fileInputValue :: jstring
  sent :: "outbound list"
  uploads :: "(upload_file \<times> jstring option) list"
  inFlightUploads :: nat
  notices :: "notice list"
  typeTimers :: nat
  waitTimers :: nat
  stepIntervals :: "(nat \<times> msg) list"
  cardTimeouts :: "msg list"

text \<open>
  \<open>textQueue\<close>, \<open>isTyping\<close>, \<open>lastOptions\<close>, \<open>addedAddressCards\<close>, \<open>ws\<close> and \<open>sessionToken\<close> are
  the refs \<^verbatim>\<open>textQueueRef\<close>, \<^verbatim>\<open>isTypingRef\<close>, \<^verbatim>\<open>lastOptionsRef\<close>, \<^verbatim>\<open>addedAddressCardsRef\<close>,
  \<^verbatim>\<open>wsRef\<close> and \<^verbatim>\<open>sessionTokenRef\<close>. \<open>sent\<close> lists the frames transmitted, \<open>uploads\<close> the files
  posted to \<^verbatim>\<open>/api/items/upload\<close> (each with the session token sent along),
  \<open>inFlightUploads\<close> the number of those requests not yet answered, \<open>notices\<close> the toasts
  shown. The last four fields are the
  timers that are set and have not fired: the number of pending \<^verbatim>\<open>setTimeout(typeNextChar)\<close>
  and \<^verbatim>\<open>setTimeout(waitForTyping)\<close>, the running \<^verbatim>\<open>setInterval\<close> animations each with its
  local \<^verbatim>\<open>step\<close> and the card it will add, and the pending 500 ms timeouts that add a card.
\<close>

definition initial_state :: app_state where
  "initial_state =
     \<lparr> messages = [], inputValue = [], isConnected = False, isLoading = False,
       currentPhase = 0, fieldsStatus = [], quickOptions = [],
       uiComponent = \<lparr> ui_type = UiNone, ui_data = None \<rparr>,
       completion = \<lparr> completion_rate = 0, can_submit = False \<rparr>,
       pendingItems = [], confirmedItems = [], isRecognizing = False, recognitionStep = 0,
       itemsJustConfirmed = False, isVerifyingAddress = False, addressVerifyStep = 0,
       pendingAddressData = None, textQueue = [], isTyping = False, lastOptions = [],
       addedAddressCards = (\<lambda>_. False), selectedOptions = [], ws = None,
       sessionToken = None, fileInputValue = [], sent = [], uploads = [], inFlightUploads = 0, notices = [],
       typeTimers = 0, waitTimers = 0, stepIntervals = [], cardTimeouts = [] \<rparr>"

text \<open>\<^verbatim>\<open>ws.send(frame)\<close>: \<open>None\<close> is the \<^verbatim>\<open>InvalidStateError\<close> thrown while connecting.\<close>

definition ws_send :: "ready_state \<Rightarrow> outbound \<Rightarrow> app_state \<Rightarrow> app_state option" where
  "ws_send rs frame s =
     (case rs of
        Connecting \<Rightarrow> None
      | Open \<Rightarrow> Some (s\<lparr>sent := sent s @ [frame]\<rparr>)
      | Closing \<Rightarrow> Some s
      | Closed \<Rightarrow> Some s)"

subsection \<open>Items: \<^verbatim>\<open>confirmItems\<close> and \<^verbatim>\<open>deleteItem\<close>\<close>

definition items_card :: "item list \<Rightarrow> msg" where
  "items_card its =
     \<lparr> role = Assistant, mtype = ItemsCard, content = [], streaming = False, confirmed = True,
       addressType = None, mdata = None, mitems = its \<rparr>"


text \<open>The updater of \<^verbatim>\<open>setConfirmedItems\<close> in \<^verbatim>\<open>confirmItems\<close>,
  \<^verbatim>\<open>prev => [...prev, ...pendingItems]\<close>: this is how the client brings a batch of pending
  items into the list of confirmed ones.\<close>

definition mergeConfirmed :: "item list \<Rightarrow> item list \<Rightarrow> item list" where
  "mergeConfirmed prev pend = prev @ pend"

text \<open>\<^verbatim>\<open>confirmItems\<close>: the frame goes out first (\<^verbatim>\<open>wsRef.current?.send\<close>), so a throwing socket
  leaves the state as it was; otherwise the card is appended to the chat, the pending items
  join the confirmed ones and the pending list is emptied.\<close>

definition confirmItems_updates :: "item list \<Rightarrow> app_state \<Rightarrow> app_state" where
  "confirmItems_updates pend s =
     s\<lparr> messages := messages s @ [items_card pend],
        confirmedItems := mergeConfirmed (confirmedItems s) pend,
        pendingItems := [],
        itemsJustConfirmed := False \<rparr>"

definition confirmItems :: "app_state \<Rightarrow> app_state" where
  "confirmItems s =
     (case ws s of
        None \<Rightarrow> confirmItems_updates (pendingItems s) s
      | Some rs \<Rightarrow>
          (case ws_send rs (OutItemsConfirmed (pendingItems s)) s of
             None \<Rightarrow> s
           | Some s' \<Rightarrow> confirmItems_updates (pendingItems s) s'))"

text \<open>\<^verbatim>\<open>deleteItem\<close>: \<^verbatim>\<open>setPendingItems(prev => prev.filter(i => i.id !== id))\<close>.\<close>

definition deleteItem :: "nat \<Rightarrow> app_state \<Rightarrow> app_state" where
  "deleteItem i s = s\<lparr> pendingItems := filter (\<lambda>it. item_id it \<noteq> i) (pendingItems s) \<rparr>"

subsection \<open>The typing effect: \<^verbatim>\<open>processTextQueue\<close> and the \<^verbatim>\<open>TEXT_DONE\<close> poll\<close>

definition streaming_msg :: "nat \<Rightarrow> msg" where
  "streaming_msg c =
     \<lparr> role = Assistant, mtype = Plain, content = [c], streaming = True, confirmed = False,
       addressType = None, mdata = None, mitems = [] \<rparr>"

text \<open>The updater of \<^verbatim>\<open>typeNextChar\<close>: the character joins the last message when that is a
  streaming assistant message, and opens a new streaming message otherwise (also when there is
  no message: \<^verbatim>\<open>prev[prev.length - 1]\<close> is then \<^verbatim>\<open>undefined\<close>).\<close>

definition appendChar :: "nat \<Rightarrow> msg list \<Rightarrow> msg list" where
  "appendChar c prev =
     (if prev \<noteq> [] \<and> role (last prev) = Assistant \<and> streaming (last prev)
      then butlast prev @ [(last prev)\<lparr>content := content (last prev) @ [c]\<rparr>]
      else prev @ [streaming_msg c])"

text \<open>\<^verbatim>\<open>typeNextChar\<close>: on an empty queue the typing flag is dropped; otherwise the head of the
  queue is shifted out and rendered, and the function sets a timeout for itself.\<close>

definition typeNextChar :: "app_state \<Rightarrow> app_state" where
  "typeNextChar s =
     (case textQueue s of
        [] \<Rightarrow> s\<lparr>isTyping := False\<rparr>
      | c # rest \<Rightarrow>
          s\<lparr> textQueue := rest, messages := appendChar c (messages s),
             typeTimers := typeTimers s + 1 \<rparr>)"

definition processTextQueue :: "app_state \<Rightarrow> app_state" where
  "processTextQueue s =
     (if isTyping s \<or> textQueue s = [] then s else typeNextChar (s\<lparr>isTyping := True\<rparr>))"

text \<open>The updater of \<^verbatim>\<open>waitForTyping\<close>: the last message stops streaming.\<close>

definition finishStreaming :: "msg list \<Rightarrow> msg list" where
  "finishStreaming prev =
     (if prev \<noteq> [] \<and> streaming (last prev)
      then butlast prev @ [(last prev)\<lparr>streaming := False\<rparr>]
      else prev)"

text \<open>\<^verbatim>\<open>waitForTyping\<close>: while characters are queued or the typing loop is running it sets a
  50 ms timeout for itself; otherwise it completes the turn.\<close>

definition waitForTyping :: "app_state \<Rightarrow> app_state" where
  "waitForTyping s =
     (if textQueue s \<noteq> [] \<or> isTyping s then s\<lparr>waitTimers := waitTimers s + 1\<rparr>
      else s\<lparr> isLoading := False, messages := finishStreaming (messages s) \<rparr>)"

subsection \<open>\<^verbatim>\<open>resetState\<close>\<close>

definition no_component :: ui_component where
  "no_component = \<lparr> ui_type = UiNone, ui_data = None \<rparr>"

definition item_evaluation :: ui_component where
  "item_evaluation = \<lparr> ui_type = ItemEvaluation, ui_data = None \<rparr>"

definition resetState :: "app_state \<Rightarrow> app_state" where
  "resetState s =
     s\<lparr> messages := [],
        currentPhase := 0,
        fieldsStatus := [],
        pendingItems := [],
        confirmedItems := [],
        quickOptions := [],
        uiComponent := no_component,
        selectedOptions := [],
        itemsJustConfirmed := False,
        textQueue := [],
        isTyping := False,
        addedAddressCards := (\<lambda>_. False) \<rparr>"

subsection \<open>The messages of the server\<close>

record metadata =
  md_current_phase :: "nat option"
  md_fields_status :: "fields option"
  md_quick_options :: "jstring list option"
  md_ui_component :: "ui_component option"
  md_completion :: "completion option"

text \<open>One constructor per \<^verbatim>\<open>type\<close> the handler's switch knows, and one for the default
  case. An optional argument is a JSON member that may be absent (or falsy where the handler
  tests truthiness).\<close>

datatype server_msg =
    Session jstring "nat option"
  | TypingStart
  | TextDelta jstring
  | TextDone
  | Metadata metadata
  | MessageHistory "(role \<times> jstring) list option"
  | SessionReset jstring fields
  | ItemsRecognized "item list option"
  | ItemsConfirmed "item list option"
  | AddressSelected
  | AddressConfirmed "jstring option"
  | ErrorMsg "jstring option"
  | UnknownType

text \<open>A string as \<^verbatim>\<open>x || default\<close> reads it: \<open>None\<close> when it is absent or empty, so that the
  default is taken.\<close>

definition truthy :: "jstring option \<Rightarrow> jstring option" where
  "truthy x = (case x of None \<Rightarrow> None | Some [] \<Rightarrow> None | Some cs \<Rightarrow> Some cs)"

text \<open>An object's property key: \<^verbatim>\<open>undefined\<close> as a key, or in a template literal, is the
  string \<^verbatim>\<open>'undefined'\<close>.\<close>

definition address_key :: "jstring option \<Rightarrow> jstring" where
  "address_key a = (case a of None \<Rightarrow> ascii ''undefined'' | Some k \<Rightarrow> k)"

text \<open>\<^verbatim>\<open>isAlreadyConfirmed\<close>, read from the \<^verbatim>\<open>fields_status\<close> of the message itself:
  \<^verbatim>\<open>data.fields_status?.[`${addressType}_address`] || {}\<close> has status \<^verbatim>\<open>'baseline'\<close> and no
  \<^verbatim>\<open>needs_confirmation\<close>.\<close>

definition isAlreadyConfirmed :: "fields option \<Rightarrow> jstring option \<Rightarrow> bool" where
  "isAlreadyConfirmed fs a =
     (case fs of
        None \<Rightarrow> False
      | Some f \<Rightarrow>
          (case map_of f (address_key a @ ascii ''_address'') of
             None \<Rightarrow> False
           | Some fi \<Rightarrow> status fi = Some Baseline \<and> \<not> needs_confirmation fi))"

definition card_type :: "ui_type \<Rightarrow> msg_type" where
  "card_type t = (if t = AddressConfirm then AddressConfirmCard else AddressSelectionCard)"

definition address_card :: "ui_type \<Rightarrow> jstring option \<Rightarrow> ui_data option \<Rightarrow> msg" where
  "address_card t a d =
     \<lparr> role = Assistant, mtype = card_type t, content = [], streaming = False,
       confirmed = False, addressType = a, mdata = d, mitems = [] \<rparr>"

definition is_address_card :: "msg \<Rightarrow> bool" where
  "is_address_card m \<longleftrightarrow> mtype m = AddressConfirmCard \<or> mtype m = AddressSelectionCard"

text \<open>The updater shared by \<^verbatim>\<open>METADATA\<close> and \<^verbatim>\<open>ADDRESS_CONFIRMED\<close>: every address card of
  the role is marked confirmed.\<close>

definition confirmCards :: "jstring option \<Rightarrow> msg list \<Rightarrow> msg list" where
  "confirmCards a prev =
     map (\<lambda>m. if is_address_card m \<and> addressType m = a then m\<lparr>confirmed := True\<rparr> else m) prev"

text \<open>The role an address component is for, \<^verbatim>\<open>data.ui_component.data?.address_type\<close>.\<close>

definition component_role :: "ui_component \<Rightarrow> jstring option" where
  "component_role uic = (case ui_data uic of None \<Rightarrow> None | Some d \<Rightarrow> address_type d)"

text \<open>
  The address part of \<^verbatim>\<open>METADATA\<close>. \<open>verifying\<close> is the value of \<^verbatim>\<open>isVerifyingAddress\<close>
  that the handler reads: \<^verbatim>\<open>handleServerMessage\<close> is memoised with
  \<^verbatim>\<open>useCallback(..., [processTextQueue])\<close> and bound to \<^verbatim>\<open>ws.onmessage\<close> once, so it is the
  value its closure holds, not the field of the current state. The first branch raises the
  role's flag and starts the animation, an interval whose local \<^verbatim>\<open>step\<close> is 0; the second
  marks the role's cards confirmed.
\<close>

definition handleAddressComponent ::
  "bool \<Rightarrow> ui_component \<Rightarrow> fields option \<Rightarrow> app_state \<Rightarrow> app_state" where
  "handleAddressComponent verifying uic fs s =
     (if ui_type uic = AddressConfirm \<or> ui_type uic = AddressSelection then
        (let addressType = component_role uic;
             alreadyConfirmed = isAlreadyConfirmed fs addressType;
             alreadyAdded = addedAddressCards s (address_key addressType)
         in if \<not> alreadyAdded \<and> \<not> alreadyConfirmed \<and> \<not> verifying then
              s\<lparr> addedAddressCards := (addedAddressCards s)(address_key addressType := True),
                 isVerifyingAddress := True,
                 addressVerifyStep := 0,
                 pendingAddressData :=
                   Some \<lparr> pa_type = card_type (ui_type uic), pa_addressType = addressType,
                          pa_data = ui_data uic \<rparr>,
                 stepIntervals := stepIntervals s
                   @ [(0, address_card (ui_type uic) addressType (ui_data uic))] \<rparr>
            else if alreadyAdded \<and> alreadyConfirmed then
              s\<lparr> messages := confirmCards addressType (messages s) \<rparr>
            else s)
      else s)"

text \<open>The quick options of \<^verbatim>\<open>METADATA\<close>: \<^verbatim>\<open>JSON.stringify\<close> of two arrays of strings is
  equal exactly when the arrays are, element by element.\<close>

definition handleQuickOptions :: "jstring list \<Rightarrow> app_state \<Rightarrow> app_state" where
  "handleQuickOptions newOptions s =
     (let isSame = (newOptions = lastOptions s)
      in if \<not> isSame then s\<lparr> quickOptions := newOptions, lastOptions := newOptions \<rparr> else s)"

definition handleMetadata :: "bool \<Rightarrow> metadata \<Rightarrow> app_state \<Rightarrow> app_state" where
  "handleMetadata verifying d s =
     (let s1 = (case md_current_phase d of None \<Rightarrow> s | Some p \<Rightarrow> s\<lparr>currentPhase := p\<rparr>);
          s2 = (case md_fields_status d of None \<Rightarrow> s1 | Some f \<Rightarrow> s1\<lparr>fieldsStatus := f\<rparr>);
          s3 = (case md_quick_options d of None \<Rightarrow> s2 | Some q \<Rightarrow> handleQuickOptions q s2);
          s4 = (case md_ui_component d of
                  None \<Rightarrow> s3
                | Some uic \<Rightarrow>
                    (handleAddressComponent verifying uic (md_fields_status d) s3)
                      \<lparr>uiComponent := uic\<rparr>)
      in case md_completion d of None \<Rightarrow> s4 | Some c \<Rightarrow> s4\<lparr>completion := c\<rparr>)"

definition history_msg :: "role \<times> jstring \<Rightarrow> msg" where
  "history_msg m =
     \<lparr> role = fst m, mtype = Plain, content = snd m, streaming = False, confirmed = False,
       addressType = None, mdata = None, mitems = [] \<rparr>"

text \<open>\<^verbatim>\<open>handleServerMessage\<close>, case by case. \<open>v\<close> is the value of \<^verbatim>\<open>isVerifyingAddress\<close> in the
  handler's closure: \<open>False\<close>, the value at the first render, for the handler the socket is
  bound to. Nothing below depends on which value it is.\<close>

fun handleServerMessage :: "bool \<Rightarrow> server_msg \<Rightarrow> app_state \<Rightarrow> app_state" where
  "handleServerMessage v (Session token phase) s =
     (let s1 = s\<lparr>sessionToken := Some token\<rparr>
      in case phase of None \<Rightarrow> s1 | Some p \<Rightarrow> s1\<lparr>currentPhase := p\<rparr>)"
| "handleServerMessage v TypingStart s = s\<lparr>isLoading := True\<rparr>"
| "handleServerMessage v (TextDelta chunk) s =
     processTextQueue (s\<lparr> isLoading := True, textQueue := textQueue s @ chunk \<rparr>)"
| "handleServerMessage v TextDone s = waitForTyping s"
| "handleServerMessage v (Metadata d) s = handleMetadata v d s"
| "handleServerMessage v (MessageHistory h) s =
     (case h of None \<Rightarrow> s | Some ms \<Rightarrow> s\<lparr>messages := map history_msg ms\<rparr>)"
| "handleServerMessage v (SessionReset token fs) s = resetState (s\<lparr>sessionToken := Some token\<rparr>)"
| "handleServerMessage v (ItemsRecognized its) s =
     s\<lparr> isRecognizing := False, pendingItems := (case its of None \<Rightarrow> [] | Some l \<Rightarrow> l) \<rparr>"
| "handleServerMessage v (ItemsConfirmed its) s =
     s\<lparr> confirmedItems := (case its of None \<Rightarrow> [] | Some l \<Rightarrow> l) \<rparr>"
| "handleServerMessage v AddressSelected s = s"
| "handleServerMessage v (AddressConfirmed a) s =
     (if a \<noteq> None \<and> a \<noteq> Some []
      then s\<lparr> messages := confirmCards a (messages s) \<rparr> else s)"
| "handleServerMessage v (ErrorMsg m) s =
     s\<lparr> notices := notices s @ [ErrorNotice (truthy m)], isLoading := False \<rparr>"
| "handleServerMessage v UnknownType s = s"

subsection \<open>The timers\<close>

text \<open>A tick of the animation interval number \<open>i\<close>: its \<^verbatim>\<open>step\<close> goes up and is shown; at 4
  the interval is cleared and the 500 ms timeout that adds the card is set.\<close>

definition intervalTick :: "nat \<Rightarrow> app_state \<Rightarrow> app_state" where
  "intervalTick i s =
     (if i < length (stepIntervals s) then
        (let step = fst (stepIntervals s ! i) + 1; card = snd (stepIntervals s ! i);
             s1 = s\<lparr>addressVerifyStep := step\<rparr>
         in if step \<ge> 4
            then s1\<lparr> stepIntervals := take i (stepIntervals s) @ drop (Suc i) (stepIntervals s),
                     cardTimeouts := cardTimeouts s @ [card] \<rparr>
            else s1\<lparr> stepIntervals := (stepIntervals s)[i := (step, card)] \<rparr>)
      else s)"

text \<open>The timeout number \<open>i\<close> fires: the card joins the chat and the animation ends.\<close>

definition cardTimeout :: "nat \<Rightarrow> app_state \<Rightarrow> app_state" where
  "cardTimeout i s =
     (if i < length (cardTimeouts s) then
        s\<lparr> messages := messages s @ [cardTimeouts s ! i],
           isVerifyingAddress := False,
           pendingAddressData := None,
           cardTimeouts := take i (cardTimeouts s) @ drop (Suc i) (cardTimeouts s) \<rparr>
      else s)"

text \<open>A pending \<^verbatim>\<open>setTimeout(typeNextChar)\<close> or \<^verbatim>\<open>setTimeout(waitForTyping)\<close> fires.\<close>

definition typeTick :: "app_state \<Rightarrow> app_state" where
  "typeTick s =
     (if typeTimers s > 0 then typeNextChar (s\<lparr>typeTimers := typeTimers s - 1\<rparr>) else s)"

definition waitTick :: "app_state \<Rightarrow> app_state" where
  "waitTick s =
     (if waitTimers s > 0 then waitForTyping (s\<lparr>waitTimers := waitTimers s - 1\<rparr>) else s)"

subsection \<open>The user's actions\<close>

text \<open>\<^verbatim>\<open>String.prototype.trim\<close> strips white space and line terminators from both ends.\<close>

definition is_js_space :: "nat \<Rightarrow> bool" where
  "is_js_space c \<longleftrightarrow>
     c \<in> {0x9, 0xA, 0xB, 0xC, 0xD, 0x20, 0xA0, 0x1680, 0x2028, 0x2029, 0x202F, 0x205F,
          0x3000, 0xFEFF}
     \<or> (0x2000 \<le> c \<and> c \<le> 0x200A)"

definition trim :: "jstring \<Rightarrow> jstring" where
  "trim cs = rev (dropWhile is_js_space (rev (dropWhile is_js_space cs)))"

text \<open>\<^verbatim>\<open>content.includes(kw)\<close>: \<open>kw\<close> occurs in \<open>cs\<close> as a contiguous run.\<close>

fun str_includes :: "jstring \<Rightarrow> jstring \<Rightarrow> bool" where
  "str_includes [] kw = (kw = [])"
| "str_includes (c # cs) kw = (take (length kw) (c # cs) = kw \<or> str_includes cs kw)"

text \<open>\<^verbatim>\<open>addItemKeywords\<close>, six Chinese phrases ("continue adding", "add items", "add more",
  "upload picture", "more items", "want to add more"), by code point.\<close>

definition addItemKeywords :: "jstring list" where
  "addItemKeywords =
     [[0x7EE7, 0x7EED, 0x6DFB, 0x52A0],
      [0x6DFB, 0x52A0, 0x7269, 0x54C1],
      [0x518D, 0x6DFB, 0x52A0],
      [0x4E0A, 0x4F20, 0x56FE, 0x7247],
      [0x8FD8, 0x6709, 0x7269, 0x54C1],
      [0x8FD8, 0x8981, 0x6DFB, 0x52A0]]"

definition isAddItemRequest :: "jstring \<Rightarrow> bool" where
  "isAddItemRequest c = list_ex (str_includes c) addItemKeywords"

definition user_msg :: "jstring \<Rightarrow> msg" where
  "user_msg c =
     \<lparr> role = User, mtype = Plain, content = c, streaming = False, confirmed = False,
       addressType = None, mdata = None, mitems = [] \<rparr>"

text \<open>
  \<^verbatim>\<open>sendMessage(content)\<close>; \<open>arg\<close> is the content, \<open>None\<close> for \<^verbatim>\<open>null\<close> or \<^verbatim>\<open>undefined\<close>.
  The guard returns at once for a missing or blank content, a missing socket
  or a connection that is not up. In phase 4 a request to add items only opens the item card.
  Otherwise the bubble is appended, the frame is sent, and the input, the quick options and
  the record of the last options are cleared; when \<^verbatim>\<open>send\<close> throws, the statements after it
  do not run.
\<close>

definition sendMessage :: "jstring option \<Rightarrow> app_state \<Rightarrow> app_state" where
  "sendMessage arg s =
     (case arg of
        None \<Rightarrow> s
      | Some c \<Rightarrow>
          (case ws s of
             None \<Rightarrow> s
           | Some rs \<Rightarrow>
               if trim c = [] \<or> \<not> isConnected s then s
               else if isAddItemRequest c \<and> currentPhase s = 4 then
                 s\<lparr> uiComponent := item_evaluation, quickOptions := [], inputValue := [] \<rparr>
               else
                 (let s1 = s\<lparr> messages := messages s @ [user_msg c] \<rparr>
                  in case ws_send rs (OutMessage c) s1 of
                       None \<Rightarrow> s1
                     | Some s2 \<Rightarrow>
                         s2\<lparr> inputValue := [], quickOptions := [], lastOptions := [],
                             isLoading := True \<rparr>)))"

text \<open>Whether that call of \<^verbatim>\<open>sendMessage\<close> ends by the exception of \<^verbatim>\<open>send\<close>.\<close>

definition sendMessage_throws :: "jstring option \<Rightarrow> app_state \<Rightarrow> bool" where
  "sendMessage_throws arg s =
     (case arg of
        None \<Rightarrow> False
      | Some c \<Rightarrow>
          ws s = Some Connecting \<and> trim c \<noteq> [] \<and> isConnected s
          \<and> \<not> (isAddItemRequest c \<and> currentPhase s = 4))"

text \<open>\<^verbatim>\<open>Array.prototype.join\<close>.\<close>

fun join :: "jstring \<Rightarrow> jstring list \<Rightarrow> jstring" where
  "join sep [] = []"
| "join sep [x] = x"
| "join sep (x # y # ys) = x @ sep @ join sep (y # ys)"

text \<open>The option texts \<^verbatim>\<open>handleQuickOption\<close> knows, by code point: "continue adding" and
  "upload photo"; the five multi-select notes; the three ways to say "nothing more"; and the
  separator of the combined reply, the ideographic comma.\<close>

definition addMoreOptions :: "jstring list" where
  "addMoreOptions =
     [[0x7EE7, 0x7EED, 0x6DFB, 0x52A0],
      [0x4E0A, 0x4F20, 0x7167, 0x7247]]"

definition multiSelectOptions :: "jstring list" where
  "multiSelectOptions =
     [[0x6709, 0x5B9C, 0x5BB6, 0x5BB6, 0x5177],
      [0x6709, 0x94A2, 0x7434, 0x9700, 0x8981, 0x642C, 0x8FD0],
      [0x7A7A, 0x8C03, 0x5B89, 0x88C5],
      [0x7A7A, 0x8C03, 0x62C6, 0x5378],
      [0x4E0D, 0x7528, 0x54C1, 0x56DE, 0x6536]]"

definition nothingMoreOptions :: "jstring list" where
  "nothingMoreOptions =
     [[0x6CA1, 0x6709, 0x4E86],
      [0x6CA1, 0x6709, 0x5176, 0x4ED6, 0x884C, 0x674E],
      [0x6CA1, 0x6709, 0x5176, 0x4ED6, 0x884C, 0x674E, 0x4E86]]"

definition ideographic_comma :: jstring where
  "ideographic_comma = [0x3001]"

definition handleQuickOption :: "jstring \<Rightarrow> app_state \<Rightarrow> app_state" where
  "handleQuickOption opt s =
     (if opt \<in> set addMoreOptions then
        s\<lparr> uiComponent := item_evaluation, quickOptions := [], pendingItems := [],
           itemsJustConfirmed := False \<rparr>
      else if opt \<in> set multiSelectOptions then
        s\<lparr> selectedOptions :=
             (if opt \<in> set (selectedOptions s)
              then filter (\<lambda>x. x \<noteq> opt) (selectedOptions s)
              else selectedOptions s @ [opt]) \<rparr>
      else if opt \<in> set nothingMoreOptions then
        (if selectedOptions s \<noteq> [] then
           (let combined = Some (join ideographic_comma (selectedOptions s))
            in if sendMessage_throws combined s then sendMessage combined s
               else sendMessage (Some opt)
                      ((sendMessage combined s)
                         \<lparr> selectedOptions := [], uiComponent := no_component \<rparr>))
         else sendMessage (Some opt) (s\<lparr> uiComponent := no_component \<rparr>))
      else sendMessage (Some opt) s)"

definition confirmSelectedOptions :: "app_state \<Rightarrow> app_state" where
  "confirmSelectedOptions s =
     (if selectedOptions s \<noteq> [] then
        (let combined = Some (join ideographic_comma (selectedOptions s))
         in if sendMessage_throws combined s then sendMessage combined s
            else (sendMessage combined s)\<lparr> selectedOptions := [] \<rparr>)
      else s)"

definition resetSession :: "app_state \<Rightarrow> app_state" where
  "resetSession s =
     (case ws s of
        None \<Rightarrow> s
      | Some rs \<Rightarrow>
          if isConnected s
          then (case ws_send rs OutResetSession s of None \<Rightarrow> s | Some s' \<Rightarrow> s')
          else s)"

text \<open>\<^verbatim>\<open>handleAddressSelected\<close>: the chosen candidate is sent as it is, then every selection
  card of the role is marked.\<close>

definition selectCards :: "jstring option \<Rightarrow> msg list \<Rightarrow> msg list" where
  "selectCards a prev =
     map (\<lambda>m. if mtype m = AddressSelectionCard \<and> addressType m = a
              then m\<lparr>confirmed := True\<rparr> else m) prev"

definition handleAddressSelected :: "jstring option \<Rightarrow> address \<Rightarrow> app_state \<Rightarrow> app_state" where
  "handleAddressSelected a selectedAddress s =
     (case ws s of
        None \<Rightarrow> s\<lparr> messages := selectCards a (messages s) \<rparr>
      | Some rs \<Rightarrow>
          (case ws_send rs (OutAddressSelected a selectedAddress) s of
             None \<Rightarrow> s
           | Some s' \<Rightarrow> s'\<lparr> messages := selectCards a (messages s') \<rparr>))"

definition confirmCard :: "jstring option \<Rightarrow> msg list \<Rightarrow> msg list" where
  "confirmCard a prev =
     map (\<lambda>m. if mtype m = AddressConfirmCard \<and> addressType m = a
              then m\<lparr>confirmed := True\<rparr> else m) prev"

definition handleAddressConfirmed :: "jstring option \<Rightarrow> bool \<Rightarrow> app_state \<Rightarrow> app_state" where
  "handleAddressConfirmed a ok s =
     (let s1 = s\<lparr> isLoading := True \<rparr>;
          mark = (\<lambda>t. if ok then t\<lparr> messages := confirmCard a (messages t) \<rparr> else t)
      in case ws s of
           None \<Rightarrow> mark s1
         | Some rs \<Rightarrow>
             (case ws_send rs (OutAddressConfirmed a ok) s1 of
                None \<Rightarrow> s1
              | Some s2 \<Rightarrow> mark s2))"



subsection \<open>Uploading a picture: \<^verbatim>\<open>handleFileSelected\<close>\<close>

definition allowedTypes :: "jstring list" where
  "allowedTypes =
     [ascii ''image/jpeg'', ascii ''image/png'', ascii ''image/webp'', ascii ''image/gif'']"

definition maxFileSize :: nat where
  "maxFileSize = 10 * 1024 * 1024"

text \<open>
  The synchronous part of \<^verbatim>\<open>handleFileSelected\<close>, up to the \<^verbatim>\<open>fetch\<close>. Without a file it
  returns at once. The input element is cleared; a type that is not allowed, and then a size
  above 10 MB, end the handler with a toast. Otherwise the recognition starts, the step
  indicator goes 0, 1, 2, and the file is posted with the session token when there is one.
\<close>

definition handleFileSelected :: "upload_file option \<Rightarrow> app_state \<Rightarrow> app_state" where
  "handleFileSelected file s =
     (case file of
        None \<Rightarrow> s
      | Some f \<Rightarrow>
          (let s1 = s\<lparr> fileInputValue := [] \<rparr>
           in if file_type f \<notin> set allowedTypes then
                s1\<lparr> notices := notices s1 @ [UnsupportedTypeNotice] \<rparr>
              else if file_size f > maxFileSize then
                s1\<lparr> notices := notices s1 @ [TooLargeNotice] \<rparr>
              else
                s1\<lparr> isRecognizing := True, recognitionStep := 2,
                    uploads := uploads s1 @ [(f, truthy (sessionToken s1))],
                    inFlightUploads := inFlightUploads s1 + 1 \<rparr>))"

text \<open>An item of the upload's answer: \<open>raw_count = 0\<close> also stands for a missing count and
  \<open>raw_note = []\<close> for a missing note, which \<^verbatim>\<open>item.count || 1\<close> and \<^verbatim>\<open>item.note || ''\<close>
  treat alike.\<close>

record raw_item =
  raw_name :: jstring
  raw_name_ja :: jstring
  raw_category :: jstring
  raw_count :: nat
  raw_confidence :: rat
  raw_note :: jstring

text \<open>How the request ends: \<^verbatim>\<open>fetch\<close> rejects, or \<^verbatim>\<open>json()\<close> does (each with the error's
  message); the status is not ok (with \<^verbatim>\<open>detail\<close>); the answer has no \<^verbatim>\<open>success\<close> (with
  \<^verbatim>\<open>error\<close>); or the answer carries an image id and its array of items.\<close>

datatype upload_response =
    FetchRejected "jstring option"
  | JsonRejected "jstring option"
  | NotOk "jstring option"
  | Unsuccessful "jstring option"
  | Recognized jstring "raw_item list"

definition convert_item :: "nat \<times> raw_item \<Rightarrow> item" where
  "convert_item p =
     \<lparr> item_id = fst p + 1,
       item_name = raw_name (snd p),
       item_name_ja = raw_name_ja (snd p),
       item_category = raw_category (snd p),
       item_count = (if raw_count (snd p) = 0 then 1 else raw_count (snd p)),
       item_confidence = raw_confidence (snd p),
       item_note = raw_note (snd p) \<rparr>"

definition convert_items :: "raw_item list \<Rightarrow> item list" where
  "convert_items raws = map convert_item (enumerate 0 raws)"

text \<open>The rest of \<^verbatim>\<open>handleFileSelected\<close>, run when the request of an upload in flight ends.
  Every path ends in \<^verbatim>\<open>finally\<close>, which stops the recognition display.\<close>

definition handleFileSelected_resume :: "upload_response \<Rightarrow> app_state \<Rightarrow> app_state" where
  "handleFileSelected_resume resp s =
     (if inFlightUploads s = 0 then s
      else
        (let s0 = s\<lparr> inFlightUploads := inFlightUploads s - 1 \<rparr>;
             failed = (\<lambda>n t. t\<lparr> notices := notices t @ [n], isRecognizing := False \<rparr>)
         in case resp of
              FetchRejected m \<Rightarrow> failed (ProcessingFailedNotice (truthy m)) s0
            | JsonRejected m \<Rightarrow>
                failed (ProcessingFailedNotice (truthy m)) (s0\<lparr> recognitionStep := 3 \<rparr>)
            | NotOk detail \<Rightarrow>
                failed (UploadFailedNotice (truthy detail)) (s0\<lparr> recognitionStep := 3 \<rparr>)
            | Unsuccessful err \<Rightarrow>
                failed (RecognitionFailedNotice (truthy err)) (s0\<lparr> recognitionStep := 4 \<rparr>)
            | Recognized image_id raws \<Rightarrow>
                (let its = convert_items raws;
                     s1 = s0\<lparr> recognitionStep := 4 \<rparr>;
                     done = (\<lambda>t. t\<lparr> pendingItems := its,
                                     notices := notices t @ [RecognizedNotice (length its)],
                                     isRecognizing := False \<rparr>)
                 in case ws s1 of
                      None \<Rightarrow> done s1
                    | Some rs \<Rightarrow>
                        (case ws_send rs (OutImageUploaded image_id its) s1 of
                           None \<Rightarrow> failed SocketErrorNotice s1
                         | Some s2 \<Rightarrow> done s2))))"

subsection \<open>Events\<close>

text \<open>Everything that runs a handler: a message of the server, a timer that fires, an action
  of the user, the end of an upload, and the life of the socket (\<^verbatim>\<open>connect\<close> installs a new,
  connecting socket; \<^verbatim>\<open>onopen\<close> and \<^verbatim>\<open>onclose\<close> set \<^verbatim>\<open>isConnected\<close>).\<close>

datatype event =
    Server server_msg
  | TypeTick
  | WaitTick
  | IntervalTick nat
  | CardTimeout nat
  | SendMessage "jstring option"
  | InputChange jstring
  | QuickOption jstring
  | ConfirmSelectedOptions
  | ResetSession
  | ConfirmItems
  | DeleteItem nat
  | SelectAddress "jstring option" address
  | ConfirmAddress "jstring option" bool
  | FileSelected "upload_file option"
  | UploadEnded upload_response
  | WsConnect
  | WsOpen
  | WsClose

fun step :: "bool \<Rightarrow> event \<Rightarrow> app_state \<Rightarrow> app_state" where
  "step v (Server m) s = handleServerMessage v m s"
| "step v TypeTick s = typeTick s"
| "step v WaitTick s = waitTick s"
| "step v (IntervalTick i) s = intervalTick i s"
| "step v (CardTimeout i) s = cardTimeout i s"
| "step v (SendMessage c) s = sendMessage c s"
| "step v (InputChange x) s = s\<lparr> inputValue := x \<rparr>"
| "step v (QuickOption opt) s = handleQuickOption opt s"
| "step v ConfirmSelectedOptions s = confirmSelectedOptions s"
| "step v ResetSession s = resetSession s"
| "step v ConfirmItems s = confirmItems s"
| "step v (DeleteItem i) s = deleteItem i s"
| "step v (SelectAddress a addr) s = handleAddressSelected a addr s"
| "step v (ConfirmAddress a ok) s = handleAddressConfirmed a ok s"
| "step v (FileSelected f) s = handleFileSelected f s"
| "step v (UploadEnded r) s = handleFileSelected_resume r s"
| "step v WsConnect s = s\<lparr> ws := Some Connecting \<rparr>"
| "step v WsOpen s = s\<lparr> ws := Some Open, isConnected := True \<rparr>"
| "step v WsClose s = s\<lparr> ws := Some Closed, isConnected := False \<rparr>"

text \<open>The events of a list, handled in order.\<close>

fun run :: "bool \<Rightarrow> event list \<Rightarrow> app_state \<Rightarrow> app_state" where
  "run v [] s = s"
| "run v (e # es) s = run v es (step v e s)"

subsection \<open>What the panels show\<close>

text \<open>The status of a field in the checklist, \<^verbatim>\<open>fieldsStatus.from_address?.status || 'not_collected'\<close>
  (and likewise for the other keys): a field that is absent, or has no status, is not
  collected.\<close>

definition getStatus :: "fields \<Rightarrow> jstring \<Rightarrow> field_status" where
  "getStatus fs k =
     (case map_of fs k of
        None \<Rightarrow> NotCollected
      | Some fi \<Rightarrow> (case status fi of None \<Rightarrow> NotCollected | Some st \<Rightarrow> st))"

text \<open>The progress bar, \<^verbatim>\<open>Math.round((completion.completion_rate || 0) * 100)\<close>; \<^verbatim>\<open>Math.round\<close>
  rounds a half upwards.\<close>

definition completionPercent :: "app_state \<Rightarrow> int" where
  "completionPercent s = \<lfloor>completion_rate (completion s) * 100 + 1 / 2\<rfloor>"

subsection \<open>The phase along a run\<close>

text \<open>The phase an event brings: a \<^verbatim>\<open>session\<close> or \<^verbatim>\<open>metadata\<close> message with a
  \<^verbatim>\<open>current_phase\<close> member brings that phase, a \<^verbatim>\<open>session_reset\<close> brings phase 0, and no
  other event brings one.\<close>

fun carried_phase :: "event \<Rightarrow> nat option" where
  "carried_phase (Server (Session token p)) = p"
| "carried_phase (Server (Metadata d)) = md_current_phase d"
| "carried_phase (Server (SessionReset token fs)) = Some 0"
| "carried_phase e = None"

text \<open>The phases brought by the events of a list never go below the phase before them,
  starting from phase \<open>p\<close>.\<close>

fun ascending :: "nat \<Rightarrow> event list \<Rightarrow> bool" where
  "ascending p [] = True"
| "ascending p (e # es) =
     (case carried_phase e of
        None \<Rightarrow> ascending p es
      | Some q \<Rightarrow> p \<le> q \<and> ascending q es)"

subsection \<open>Address cards along a run\<close>

text \<open>The address cards of a list of messages that belong to the role whose flag in
  \<^verbatim>\<open>addedAddressCardsRef\<close> is \<open>k\<close>; the animations of the role that are under way, an interval
  still ticking or a timeout about to add the card; and the bound that ties them to the flag:
  cards and animations together number at most one, and none unless the flag is raised.\<close>

definition role_cards :: "jstring \<Rightarrow> msg list \<Rightarrow> nat" where
  "role_cards k ms =
     length (filter (\<lambda>m. is_address_card m \<and> address_key (addressType m) = k) ms)"

definition role_animations :: "jstring \<Rightarrow> app_state \<Rightarrow> nat" where
  "role_animations k s =
     role_cards k (map snd (stepIntervals s)) + role_cards k (cardTimeouts s)"

definition card_total :: "jstring \<Rightarrow> app_state \<Rightarrow> nat" where
  "card_total k s = role_cards k (messages s) + role_animations k s"

definition cards_bounded :: "jstring \<Rightarrow> app_state \<Rightarrow> bool" where
  "cards_bounded k s \<longleftrightarrow> card_total k s \<le> (if addedAddressCards s k then 1 else 0)"

fun is_reset :: "event \<Rightarrow> bool" where
  "is_reset (Server (SessionReset token fs)) = True"
| "is_reset e = False"

subsection \<open>An assistant turn\<close>

text \<open>The bubble of an assistant turn that has rendered the text \<open>t\<close>: none as long as
  nothing is rendered.\<close>

definition bubble :: "jstring \<Rightarrow> bool \<Rightarrow> msg list" where
  "bubble t st =
     (if t = [] then []
      else [\<lparr> role = Assistant, mtype = Plain, content = t, streaming = st,
              confirmed = False, addressType = None, mdata = None, mitems = [] \<rparr>])"

text \<open>
  The events of one turn are the turn's \<^verbatim>\<open>text_delta\<close> messages, then its one \<^verbatim>\<open>text_done\<close>,
  with the two timers of the typing effect firing in between and after. \<open>turn_event\<close> follows
  a pair, the text received so far and whether \<^verbatim>\<open>text_done\<close> has come, through such an event
  and is \<open>None\<close> for any other event; \<open>turn_text\<close> follows it through a list.
\<close>

definition turn_event :: "jstring \<times> bool \<Rightarrow> event \<Rightarrow> (jstring \<times> bool) option" where
  "turn_event td e =
     (case e of
        TypeTick \<Rightarrow> Some td
      | WaitTick \<Rightarrow> Some td
      | Server m \<Rightarrow>
          (case m of
             TextDelta chunk \<Rightarrow> if snd td then None else Some (fst td @ chunk, False)
           | TextDone \<Rightarrow> if snd td then None else Some (fst td, True)
           | _ \<Rightarrow> None)
      | _ \<Rightarrow> None)"

fun turn_text :: "jstring \<times> bool \<Rightarrow> event list \<Rightarrow> (jstring \<times> bool) option" where
  "turn_text td [] = Some td"
| "turn_text td (e # es) =
     (case turn_event td e of None \<Rightarrow> None | Some td' \<Rightarrow> turn_text td' es)"

text \<open>An event completes a turn when it runs \<^verbatim>\<open>waitForTyping\<close> (a \<^verbatim>\<open>text_done\<close>, or a pending
  poll that fires) and takes its second branch; \<open>completions\<close> counts these along a run.\<close>

definition completes :: "event \<Rightarrow> app_state \<Rightarrow> bool" where
  "completes e s \<longleftrightarrow>
     textQueue s = [] \<and> \<not> isTyping s
     \<and> (e = Server TextDone \<or> (e = WaitTick \<and> waitTimers s > 0))"

fun completions :: "bool \<Rightarrow> event list \<Rightarrow> app_state \<Rightarrow> nat" where
  "completions v [] s = 0"
| "completions v (e # es) s =
     (if completes e s then 1 else 0) + completions v es (step v e s)"

text \<open>Nothing of the typing effect is under way.\<close>

definition typing_idle :: "app_state \<Rightarrow> bool" where
  "typing_idle s \<longleftrightarrow>
     textQueue s = [] \<and> \<not> isTyping s \<and> typeTimers s = 0 \<and> waitTimers s = 0"

text \<open>How the typing flag, the queue and the timeout of the typing loop hang together during a
  turn: at most one timeout is pending, exactly while the flag is up, and the flag is up while
  characters are queued.\<close>

definition timers_agree :: "app_state \<Rightarrow> bool" where
  "timers_agree s \<longleftrightarrow>
     typeTimers s \<le> 1 \<and> (isTyping s \<longleftrightarrow> typeTimers s = 1) \<and> (textQueue s \<noteq> [] \<longrightarrow> isTyping s)"

text \<open>The state of a turn that started on the messages \<open>base\<close>, has received the text
  \<open>fst td\<close>, has seen \<^verbatim>\<open>text_done\<close> when \<open>snd td\<close>, and has been completed \<open>n\<close> times. Before
  completion the bubble is streaming and holds what has left the queue; the poll is pending
  exactly when \<^verbatim>\<open>text_done\<close> has come. After it the bubble holds the whole text and streams
  no more, and nothing is queued or pending.\<close>

definition turn_inv :: "msg list \<Rightarrow> jstring \<times> bool \<Rightarrow> nat \<Rightarrow> app_state \<Rightarrow> bool" where
  "turn_inv base td n s \<longleftrightarrow>
     timers_agree s \<and>
     (if n = 0
      then waitTimers s = (if snd td then 1 else 0)
           \<and> (\<exists>typed. fst td = typed @ textQueue s \<and> messages s = base @ bubble typed True)
      else n = 1 \<and> snd td \<and> waitTimers s = 0 \<and> textQueue s = [] \<and> \<not> isTyping s
           \<and> messages s = base @ bubble (fst td) False)"

text \<open>The messages on which a turn starts: the last one, if any, is not streaming.\<close>

definition settled :: "msg list \<Rightarrow> bool" where
  "settled base \<longleftrightarrow> base = [] \<or> \<not> streaming (last base)"

subsection \<open>The address verification sub-flow of the server\<close>

text \<open>Modelled from the spec: the states of the address sub-flow (section 4.2, "idle,
  resolving, disambiguating or confirming, confirmed"). The sub-flow runs in the server,
  whose code is not among the sources; the client only draws the cards the server asks
  for.\<close>

datatype subflow =
    Idle
  | Resolving jstring
  | Disambiguating "address list"
  | Confirming address
  | Confirmed address

text \<open>Modelled from the spec: the errors of the sub-flow in the taxonomy of section 7.\<close>

datatype subflow_error = UnresolvedAddress | SubflowBusy



subsection \<open>Concrete inputs\<close>




definition sample_address :: "jstring \<Rightarrow> address" where
  "sample_address a =
     \<lparr> formatted_address = a, postal_code = ascii ''100-0001'', prefecture = ascii ''Tokyo'',
       city = ascii ''Chiyoda'', district = [] \<rparr>"

definition three_candidates :: "address list" where
  "three_candidates =
     [sample_address (ascii ''1-1''), sample_address (ascii ''1-2''), sample_address (ascii ''1-3'')]"

definition selection_data :: "jstring \<Rightarrow> ui_data" where
  "selection_data r =
     \<lparr> address_type = Some r, candidates = three_candidates, original_input = ascii ''1'',
       data_address = sample_address [] \<rparr>"

definition card_metadata :: "ui_type \<Rightarrow> jstring \<Rightarrow> metadata" where
  "card_metadata t r =
     \<lparr> md_current_phase = None, md_fields_status = None, md_quick_options = None,
       md_ui_component = Some \<lparr> ui_type = t, ui_data = Some (selection_data r) \<rparr>,
       md_completion = None \<rparr>"

definition no_metadata :: metadata where
  "no_metadata =
     \<lparr> md_current_phase = None, md_fields_status = None, md_quick_options = None,
       md_ui_component = None, md_completion = None \<rparr>"

definition half_done :: metadata where
  "half_done =
     no_metadata
       \<lparr> md_current_phase := Some 3,
         md_fields_status :=
           Some [(ascii ''people_count'', \<lparr> status = Some Baseline, needs_confirmation = False \<rparr>)],
         md_completion := Some \<lparr> completion_rate = 1 / 2, can_submit = False \<rparr> \<rparr>"

section \<open>Theorems\<close>

subsection \<open>Deleting a pending item\<close>




subsection \<open>What the handlers leave alone\<close>

lemma ws_send_fields:
  "ws_send rs fr s = Some s' \<Longrightarrow>
     currentPhase s' = currentPhase s \<and> messages s' = messages s \<and> ws s' = ws s
     \<and> isConnected s' = isConnected s"
  by (auto simp: ws_send_def split: ready_state.splits)

lemma currentPhase_typeNextChar [simp]: "currentPhase (typeNextChar s) = currentPhase s"
  by (simp add: typeNextChar_def split: list.splits)

lemma currentPhase_processTextQueue [simp]: "currentPhase (processTextQueue s) = currentPhase s"
  by (simp add: processTextQueue_def)

lemma currentPhase_waitForTyping [simp]: "currentPhase (waitForTyping s) = currentPhase s"
  by (simp add: waitForTyping_def)

lemma currentPhase_handleAddressComponent [simp]:
  "currentPhase (handleAddressComponent v uic fs s) = currentPhase s"
  by (simp add: handleAddressComponent_def Let_def)

lemma currentPhase_handleQuickOptions [simp]:
  "currentPhase (handleQuickOptions q s) = currentPhase s"
  by (simp add: handleQuickOptions_def)

lemma currentPhase_handleMetadata:
  "currentPhase (handleMetadata v d s) =
     (case md_current_phase d of None \<Rightarrow> currentPhase s | Some p \<Rightarrow> p)"
  by (simp add: handleMetadata_def Let_def split: option.splits)

lemma currentPhase_sendMessage [simp]: "currentPhase (sendMessage c s) = currentPhase s"
  by (auto simp: sendMessage_def Let_def ws_send_def split: option.splits ready_state.splits)

lemma currentPhase_handleQuickOption [simp]: "currentPhase (handleQuickOption opt s) = currentPhase s"
  by (simp add: handleQuickOption_def Let_def)

lemma currentPhase_confirmSelectedOptions [simp]:
  "currentPhase (confirmSelectedOptions s) = currentPhase s"
  by (simp add: confirmSelectedOptions_def Let_def)

lemma currentPhase_resetSession [simp]: "currentPhase (resetSession s) = currentPhase s"
  by (auto simp: resetSession_def ws_send_def split: option.splits ready_state.splits)

lemma currentPhase_confirmItems [simp]: "currentPhase (confirmItems s) = currentPhase s"
  by (auto simp: confirmItems_def confirmItems_updates_def ws_send_def split: option.splits ready_state.splits)

lemma currentPhase_handleAddressSelected [simp]:
  "currentPhase (handleAddressSelected a addr s) = currentPhase s"
  by (auto simp: handleAddressSelected_def ws_send_def split: option.splits ready_state.splits)

lemma currentPhase_handleAddressConfirmed [simp]:
  "currentPhase (handleAddressConfirmed a ok s) = currentPhase s"
  by (auto simp: handleAddressConfirmed_def Let_def ws_send_def split: option.splits ready_state.splits)

lemma currentPhase_handleFileSelected [simp]:
  "currentPhase (handleFileSelected f s) = currentPhase s"
  by (auto simp: handleFileSelected_def Let_def split: option.splits)

lemma currentPhase_handleFileSelected_resume [simp]:
  "currentPhase (handleFileSelected_resume r s) = currentPhase s"
  by (auto simp: handleFileSelected_resume_def Let_def ws_send_def
      split: option.splits upload_response.splits ready_state.splits)

lemma currentPhase_timers [simp]:
  "currentPhase (typeTick s) = currentPhase s"
  "currentPhase (waitTick s) = currentPhase s"
  "currentPhase (intervalTick i s) = currentPhase s"
  "currentPhase (cardTimeout i s) = currentPhase s"
  by (simp_all add: typeTick_def waitTick_def intervalTick_def cardTimeout_def Let_def)

lemma currentPhase_handleServerMessage:
  "currentPhase (handleServerMessage v m s) =
     (case carried_phase (Server m) of None \<Rightarrow> currentPhase s | Some p \<Rightarrow> p)"
  by (cases m) (simp_all add: currentPhase_handleMetadata resetState_def Let_def deleteItem_def
        split: option.splits)

lemma currentPhase_step:
  "currentPhase (step v e s) =
     (case carried_phase e of None \<Rightarrow> currentPhase s | Some p \<Rightarrow> p)"
  by (cases e) (simp_all add: currentPhase_handleServerMessage deleteItem_def)

lemma ascending_run:
  "ascending (currentPhase s) es \<Longrightarrow> currentPhase s \<le> currentPhase (run v es s)"
proof (induction es arbitrary: s)
  case Nil
  then show ?case by simp
next
  case (Cons e es)
  show ?case
  proof (cases "carried_phase e")
    case None
    with Cons.prems have "ascending (currentPhase (step v e s)) es"
      by (simp add: currentPhase_step)
    from Cons.IH [OF this] None show ?thesis
      by (simp add: currentPhase_step)
  next
    case (Some q)
    with Cons.prems have q: "currentPhase s \<le> q" "ascending (currentPhase (step v e s)) es"
      by (simp_all add: currentPhase_step)
    from Cons.IH [OF q(2)] Some q(1) show ?thesis
      by (simp add: currentPhase_step)
  qed
qed

lemma ascending_append:
  "ascending (currentPhase s) (es1 @ es2) \<Longrightarrow> ascending (currentPhase (run v es1 s)) es2"
proof (induction es1 arbitrary: s)
  case Nil
  then show ?case by simp
next
  case (Cons e es1)
  then show ?case
    by (cases "carried_phase e") (simp_all add: currentPhase_step)
qed

lemma ascending_prefix: "ascending p (es1 @ es2) \<Longrightarrow> ascending p es1"
  by (induction es1 arbitrary: p) (auto split: option.splits)

lemma run_append: "run v (es1 @ es2) s = run v es2 (run v es1 s)"
  by (induction es1 arbitrary: s) simp_all


subsection \<open>Session reset\<close>

lemma resetState_clears:
  "fieldsStatus (resetState s) = [] \<and> pendingItems (resetState s) = []
   \<and> confirmedItems (resetState s) = [] \<and> currentPhase (resetState s) = 0
   \<and> messages (resetState s) = [] \<and> completion (resetState s) = completion s"
  by (simp add: resetState_def)

lemma getStatus_empty: "getStatus [] k = NotCollected"
  by (simp add: getStatus_def)

lemma floor_half: "\<lfloor>(101::rat) / 2\<rfloor> = 50"
  by (simp add: floor_eq_iff)

text \<open>
  C1. A \<^verbatim>\<open>session_reset\<close> clears the field statuses, the pending items and the confirmed items,
  but \<^verbatim>\<open>resetState\<close> has no \<^verbatim>\<open>setCompletion\<close>: the completion the panel shows stays what the
  last \<^verbatim>\<open>metadata\<close> made it. After a \<^verbatim>\<open>metadata\<close> with a completion rate of one half, the
  reset leaves every field not collected and both item lists empty, and the completion rate
  at one half, shown as 50 percent.
\<close>

theorem reset_leaves_completion_rate:
  "fieldsStatus (handleServerMessage v (SessionReset token fs)
       (handleServerMessage v (Metadata half_done) initial_state)) = []
   \<and> getStatus (fieldsStatus (handleServerMessage v (SessionReset token fs)
       (handleServerMessage v (Metadata half_done) initial_state))) k = NotCollected
   \<and> pendingItems (handleServerMessage v (SessionReset token fs)
       (handleServerMessage v (Metadata half_done) initial_state)) = []
   \<and> confirmedItems (handleServerMessage v (SessionReset token fs)
       (handleServerMessage v (Metadata half_done) initial_state)) = []
   \<and> completion_rate (completion (handleServerMessage v (SessionReset token fs)
       (handleServerMessage v (Metadata half_done) initial_state))) = 1 / 2
   \<and> completionPercent (handleServerMessage v (SessionReset token fs)
       (handleServerMessage v (Metadata half_done) initial_state)) = 50"
  by (simp add: resetState_def getStatus_def handleMetadata_def half_done_def no_metadata_def
      completionPercent_def Let_def floor_half)

subsection \<open>Confirming items\<close>






subsection \<open>Quick options\<close>

lemma handleQuickOptions_same:
  "opts = lastOptions s \<Longrightarrow> handleQuickOptions opts s = s"
  by (simp add: handleQuickOptions_def)

lemma handleQuickOptions_diff:
  "opts \<noteq> lastOptions s \<Longrightarrow> handleQuickOptions opts s = s\<lparr> quickOptions := opts, lastOptions := opts \<rparr>"
  by (simp add: handleQuickOptions_def)

lemma handleAddressComponent_options [simp]:
  "quickOptions (handleAddressComponent v uic fs s) = quickOptions s"
  "lastOptions (handleAddressComponent v uic fs s) = lastOptions s"
  by (simp_all add: handleAddressComponent_def Let_def)






subsection \<open>The phase\<close>

text \<open>
  C4, as stated, fails: a \<^verbatim>\<open>metadata\<close> carrying phase 1 moves a client in phase 3 back to
  phase 1.
\<close>

theorem phase_can_decrease:
  "currentPhase (handleServerMessage False (Metadata (no_metadata\<lparr> md_current_phase := Some 1 \<rparr>))
      (initial_state\<lparr> currentPhase := 3 \<rparr>))
   < currentPhase (initial_state\<lparr> currentPhase := 3 \<rparr>)"
  by (simp add: handleMetadata_def no_metadata_def Let_def)

text \<open>
  C4, amended. The client takes the phase a \<^verbatim>\<open>session\<close> or \<^verbatim>\<open>metadata\<close> message carries, as
  it is, and keeps its phase when the message carries none; a session reset returns it to
  phase 0; no other event changes it. So the phase never decreases along a run of events in
  which every phase carried is at least the phase before it.
\<close>

theorem phase_follows_server:
  "currentPhase (handleServerMessage v (Session token p) s)
     = (case p of None \<Rightarrow> currentPhase s | Some q \<Rightarrow> q)
   \<and> currentPhase (handleServerMessage v (Metadata d) s)
     = (case md_current_phase d of None \<Rightarrow> currentPhase s | Some q \<Rightarrow> q)
   \<and> currentPhase (handleServerMessage v (SessionReset token fs) s) = 0
   \<and> (carried_phase e = None \<longrightarrow> currentPhase (step v e s) = currentPhase s)
   \<and> (ascending (currentPhase s) (es1 @ es2) \<longrightarrow>
        currentPhase s \<le> currentPhase (run v es1 s)
      \<and> currentPhase (run v es1 s) \<le> currentPhase (run v (es1 @ es2) s))"
proof -
  have "currentPhase (run v es1 s) \<le> currentPhase (run v (es1 @ es2) s)"
    if "ascending (currentPhase s) (es1 @ es2)"
    using ascending_run [OF ascending_append [OF that]] by (simp add: run_append)
  moreover have "currentPhase s \<le> currentPhase (run v es1 s)"
    if "ascending (currentPhase s) (es1 @ es2)"
  proof -
    have "ascending (currentPhase s) es1"
      using that by (rule ascending_prefix)
    then show ?thesis by (rule ascending_run)
  qed
  moreover have "currentPhase (handleServerMessage v (Session token p) s)
     = (case p of None \<Rightarrow> currentPhase s | Some q \<Rightarrow> q)"
    by (simp add: Let_def split: option.splits)
  moreover have "currentPhase (handleServerMessage v (Metadata d) s)
     = (case md_current_phase d of None \<Rightarrow> currentPhase s | Some q \<Rightarrow> q)"
    by (simp add: currentPhase_handleMetadata)
  moreover have "currentPhase (handleServerMessage v (SessionReset token fs) s) = 0"
    by (simp add: resetState_def)
  moreover have "carried_phase e = None \<longrightarrow> currentPhase (step v e s) = currentPhase s"
    by (simp add: currentPhase_step)
  ultimately show ?thesis
    by blast
qed


theorem phase_follows_server_witness:
  "ascending (currentPhase initial_state)
     ([Server (Metadata (no_metadata\<lparr> md_current_phase := Some 1 \<rparr>)), Server TextDone]
      @ [Server (Metadata (no_metadata\<lparr> md_current_phase := Some 2 \<rparr>))])
   \<and> currentPhase (run False
        [Server (Metadata (no_metadata\<lparr> md_current_phase := Some 1 \<rparr>)), Server TextDone]
        initial_state)
     \<le> currentPhase (run False
        ([Server (Metadata (no_metadata\<lparr> md_current_phase := Some 1 \<rparr>)), Server TextDone]
         @ [Server (Metadata (no_metadata\<lparr> md_current_phase := Some 2 \<rparr>))])
        initial_state)"
proof -
  have asc: "ascending (currentPhase initial_state)
     ([Server (Metadata (no_metadata\<lparr> md_current_phase := Some 1 \<rparr>)), Server TextDone]
      @ [Server (Metadata (no_metadata\<lparr> md_current_phase := Some 2 \<rparr>))])"
    by (simp add: initial_state_def no_metadata_def)
  from asc phase_follows_server
    [where s = initial_state and v = False
       and ?es1.0 = "[Server (Metadata (no_metadata\<lparr> md_current_phase := Some 1 \<rparr>)), Server TextDone]"
       and ?es2.0 = "[Server (Metadata (no_metadata\<lparr> md_current_phase := Some 2 \<rparr>))]"]
  show ?thesis
    by blast
qed

subsection \<open>Sending a message\<close>

lemma trim_blank_iff: "trim cs = [] \<longleftrightarrow> (\<forall>x \<in> set cs. is_js_space x)"
proof
  assume "trim cs = []"
  then have d: "\<forall>x \<in> set (dropWhile is_js_space cs). is_js_space x"
    by (simp add: trim_def dropWhile_eq_Nil_conv)
  have "set cs = set (takeWhile is_js_space cs) \<union> set (dropWhile is_js_space cs)"
    by (metis set_append takeWhile_dropWhile_id)
  with d show "\<forall>x \<in> set cs. is_js_space x"
    by (auto dest: set_takeWhileD)
next
  assume "\<forall>x \<in> set cs. is_js_space x"
  then show "trim cs = []"
    by (auto simp: trim_def dest: set_dropWhileD)
qed

lemma trim_blank: "(\<forall>x \<in> set cs. is_js_space x) \<Longrightarrow> trim cs = []"
  by (simp add: trim_blank_iff)

text \<open>
  C9. \<^verbatim>\<open>sendMessage\<close> with a content that is \<^verbatim>\<open>null\<close>, empty or made of white space only, or
  without a socket, or while the connection is not up, returns the state as it was: nothing
  is transmitted, and the messages, the input value, the quick options and the loading flag
  are unchanged.
\<close>

theorem sendMessage_guard_is_noop:
  assumes "arg = None \<or> (\<exists>c. arg = Some c \<and> (\<forall>x \<in> set c. is_js_space x))
           \<or> ws s = None \<or> \<not> isConnected s"
  shows "sendMessage arg s = s
       \<and> sent (sendMessage arg s) = sent s
       \<and> messages (sendMessage arg s) = messages s
       \<and> inputValue (sendMessage arg s) = inputValue s
       \<and> quickOptions (sendMessage arg s) = quickOptions s
       \<and> isLoading (sendMessage arg s) = isLoading s"
proof -
  have "sendMessage arg s = s"
    using assms by (auto simp: sendMessage_def trim_blank split: option.splits)
  then show ?thesis by simp
qed

theorem sendMessage_guard_is_noop_witness:
  "sendMessage (Some [0x20, 0x3000, 0xA, 0x9])
     (initial_state\<lparr> ws := Some Open, isConnected := True, inputValue := [0x20, 0x3000, 0xA, 0x9],
                     quickOptions := [ascii ''yes''], lastOptions := [ascii ''yes''] \<rparr>)
   = initial_state\<lparr> ws := Some Open, isConnected := True, inputValue := [0x20, 0x3000, 0xA, 0x9],
                     quickOptions := [ascii ''yes''], lastOptions := [ascii ''yes''] \<rparr>"
  using sendMessage_guard_is_noop
    [of "Some [0x20, 0x3000, 0xA, 0x9]"
        "initial_state\<lparr> ws := Some Open, isConnected := True, inputValue := [0x20, 0x3000, 0xA, 0x9],
                     quickOptions := [ascii ''yes''], lastOptions := [ascii ''yes''] \<rparr>"]
  by (simp add: is_js_space_def)

subsection \<open>Choosing a file\<close>

text \<open>
  C10. A file whose type is not one of the four image types, or whose size is above
  10 * 1024 * 1024 bytes, is refused: nothing is posted, no upload is left in flight (so no
  answer will be handled later), no frame is sent and the pending items are unchanged. The
  handler only clears the file input and shows one error toast.
\<close>

theorem handleFileSelected_rejects:
  assumes "file_type f \<notin> {ascii ''image/jpeg'', ascii ''image/png'', ascii ''image/webp'', ascii ''image/gif''}
           \<or> file_size f > 10 * 1024 * 1024"
  shows "uploads (handleFileSelected (Some f) s) = uploads s
       \<and> inFlightUploads (handleFileSelected (Some f) s) = inFlightUploads s
       \<and> sent (handleFileSelected (Some f) s) = sent s
       \<and> pendingItems (handleFileSelected (Some f) s) = pendingItems s
       \<and> (\<exists>n. n \<in> {UnsupportedTypeNotice, TooLargeNotice}
              \<and> handleFileSelected (Some f) s = s\<lparr> fileInputValue := [], notices := notices s @ [n] \<rparr>)"
  using assms by (auto simp: handleFileSelected_def allowedTypes_def maxFileSize_def Let_def)

theorem handleFileSelected_rejects_witness:
  "uploads (handleFileSelected (Some \<lparr> file_type = ascii ''image/png'', file_size = 10485761 \<rparr>) initial_state) = []
   \<and> sent (handleFileSelected (Some \<lparr> file_type = ascii ''image/png'', file_size = 10485761 \<rparr>) initial_state) = []
   \<and> pendingItems (handleFileSelected (Some \<lparr> file_type = ascii ''image/png'', file_size = 10485761 \<rparr>) initial_state) = []"
  using handleFileSelected_rejects
    [of "\<lparr> file_type = ascii ''image/png'', file_size = 10485761 \<rparr>" initial_state]
  by (simp add: initial_state_def)

subsection \<open>Streaming a turn\<close>

lemma appendChar_bubble:
  "settled base \<Longrightarrow> appendChar c (base @ bubble typed True) = base @ bubble (typed @ [c]) True"
  by (auto simp: settled_def appendChar_def bubble_def streaming_msg_def)

lemma finishStreaming_bubble:
  "settled base \<Longrightarrow> finishStreaming (base @ bubble typed True) = base @ bubble typed False"
  by (auto simp: settled_def finishStreaming_def bubble_def)

lemma turn_inv_TypeTick:
  assumes "settled base" "turn_inv base td n s"
  shows "turn_inv base td n (typeTick s)"
proof (cases "typeTimers s > 0")
  case False
  then show ?thesis using assms(2) by (simp add: typeTick_def)
next
  case True
  with assms(2) have t: "typeTimers s = 1" "isTyping s"
    by (auto simp: turn_inv_def timers_agree_def)
  show ?thesis
  proof (cases "textQueue s")
    case Nil
    with t assms(2) show ?thesis
      by (auto simp: typeTick_def typeNextChar_def turn_inv_def timers_agree_def split: if_splits)
  next
    case (Cons c rest)
    with t assms(2) have n0: "n = 0"
      by (auto simp: turn_inv_def split: if_splits)
    from assms(2) n0 obtain typed where
      ty: "fst td = typed @ textQueue s" "messages s = base @ bubble typed True"
      and w: "waitTimers s = (if snd td then 1 else 0)"
      by (auto simp: turn_inv_def)
    have "fst td = (typed @ [c]) @ rest" using ty(1) Cons by simp
    moreover have "appendChar c (messages s) = base @ bubble (typed @ [c]) True"
      using ty(2) assms(1) by (simp add: appendChar_bubble)
    ultimately show ?thesis
      using t Cons n0 w
      by (auto simp: typeTick_def typeNextChar_def turn_inv_def timers_agree_def)
  qed
qed

lemma turn_inv_TextDelta:
  assumes "settled base" "turn_inv base (t, False) n s"
  shows "turn_inv base (t @ chunk, False) n (handleServerMessage v (TextDelta chunk) s)"
proof -
  from assms(2) have n0: "n = 0"
    by (auto simp: turn_inv_def split: if_splits)
  from assms(2) n0 obtain typed where
      ty: "t = typed @ textQueue s" "messages s = base @ bubble typed True"
      and w: "waitTimers s = 0" and ta: "timers_agree s"
    by (auto simp: turn_inv_def)
  show ?thesis
  proof (cases "isTyping s \<or> textQueue s @ chunk = []")
    case True
    then show ?thesis using ty w ta n0
      by (auto simp: processTextQueue_def turn_inv_def timers_agree_def)
  next
    case False
    then have nt: "\<not> isTyping s" and ne: "textQueue s @ chunk \<noteq> []" by auto
    from nt ta have q: "textQueue s = []" "typeTimers s = 0"
      by (auto simp: timers_agree_def)
    from ne q obtain c rest where ch: "chunk = c # rest" by (cases chunk) auto
    have "appendChar c (messages s) = base @ bubble (typed @ [c]) True"
      using ty(2) assms(1) by (simp add: appendChar_bubble)
    moreover have "t @ chunk = (typed @ [c]) @ rest" using ty(1) q ch by simp
    ultimately show ?thesis using nt q ch w n0
      by (auto simp: processTextQueue_def typeNextChar_def turn_inv_def timers_agree_def)
  qed
qed

lemma turn_inv_waitForTyping:
  assumes "settled base" "turn_inv base (t, True) 0 (s\<lparr>waitTimers := Suc (waitTimers s)\<rparr>)"
  shows "turn_inv base (t, True) (if textQueue s = [] \<and> \<not> isTyping s then 1 else 0) (waitForTyping s)"
proof -
  from assms(2) obtain typed where
      ty: "t = typed @ textQueue s" "messages s = base @ bubble typed True"
      and w: "waitTimers s = 0" and ta: "timers_agree s"
    by (auto simp: turn_inv_def timers_agree_def)
  show ?thesis
  proof (cases "textQueue s = [] \<and> \<not> isTyping s")
    case True
    with ty have "finishStreaming (messages s) = base @ bubble t False"
      using assms(1) by (simp add: finishStreaming_bubble)
    with True w ta show ?thesis
      by (auto simp: waitForTyping_def turn_inv_def timers_agree_def)
  next
    case False
    with ty w ta show ?thesis
      by (auto simp: waitForTyping_def turn_inv_def timers_agree_def)
  qed
qed

lemma turn_inv_TextDone:
  assumes "settled base" "turn_inv base (t, False) n s"
  shows "turn_inv base (t, True) (n + (if completes (Server TextDone) s then 1 else 0))
           (handleServerMessage v TextDone s)"
proof -
  from assms(2) have n0: "n = 0"
    by (auto simp: turn_inv_def split: if_splits)
  have "turn_inv base (t, True) 0 (s\<lparr>waitTimers := Suc (waitTimers s)\<rparr>)"
    using assms(2) n0 by (auto simp: turn_inv_def timers_agree_def)
  from turn_inv_waitForTyping [OF assms(1) this] n0 show ?thesis
    by (simp add: completes_def)
qed

lemma turn_inv_WaitTick:
  assumes "settled base" "turn_inv base td n s"
  shows "turn_inv base td (n + (if completes WaitTick s then 1 else 0)) (waitTick s)"
proof (cases "waitTimers s > 0")
  case False
  then show ?thesis using assms(2) by (simp add: waitTick_def completes_def)
next
  case True
  with assms(2) have n0: "n = 0" and d: "snd td" and w: "waitTimers s = 1"
    by (auto simp: turn_inv_def split: if_splits)
  let ?s = "s\<lparr>waitTimers := waitTimers s - 1\<rparr>"
  have "?s\<lparr>waitTimers := Suc (waitTimers ?s)\<rparr> = s" using w by simp
  with assms(2) n0 d have "turn_inv base (fst td, True) 0 (?s\<lparr>waitTimers := Suc (waitTimers ?s)\<rparr>)"
    by (metis prod.collapse)
  from turn_inv_waitForTyping [OF assms(1) this] show ?thesis
    using True n0 d by (cases td) (simp add: waitTick_def completes_def)
qed

lemma turn_inv_step:
  assumes "settled base" "turn_inv base td n s" "turn_event td e = Some td'"
  shows "turn_inv base td' (n + (if completes e s then 1 else 0)) (step v e s)"
proof (cases e)
  case (Server m)
  show ?thesis
  proof (cases m)
    case (TextDelta chunk)
    with Server assms(3) have "\<not> snd td" "td' = (fst td @ chunk, False)"
      by (auto simp: turn_event_def split: if_splits)
    moreover from this assms(2) have "turn_inv base (fst td, False) n s"
      by (metis prod.collapse)
    ultimately show ?thesis
      using turn_inv_TextDelta [OF assms(1), of "fst td" n s chunk v] Server TextDelta
      by (simp add: completes_def)
  next
    case TextDone
    with Server assms(3) have "\<not> snd td" "td' = (fst td, True)"
      by (auto simp: turn_event_def split: if_splits)
    moreover from this assms(2) have "turn_inv base (fst td, False) n s"
      by (metis prod.collapse)
    ultimately show ?thesis
      using turn_inv_TextDone [OF assms(1), of "fst td" n s v] Server TextDone
      by simp
  qed (use Server assms(3) in \<open>simp_all add: turn_event_def\<close>)
next
  case TypeTick
  with assms(3) have "td' = td" by (simp add: turn_event_def)
  then show ?thesis
    using turn_inv_TypeTick [OF assms(1,2)] TypeTick by (simp add: completes_def)
next
  case WaitTick
  with assms(3) have "td' = td" by (simp add: turn_event_def)
  then show ?thesis
    using turn_inv_WaitTick [OF assms(1,2)] WaitTick by simp
qed (use assms(3) in \<open>simp_all add: turn_event_def\<close>)

lemma turn_inv_run:
  assumes "settled base"
  shows "turn_inv base td n s \<Longrightarrow> turn_text td es = Some td' \<Longrightarrow>
         turn_inv base td' (n + completions v es s) (run v es s)"
proof (induction es arbitrary: td n s)
  case Nil
  then show ?case by simp
next
  case (Cons e es)
  from Cons.prems(2) obtain td1 where
    e: "turn_event td e = Some td1" and es: "turn_text td1 es = Some td'"
    by (auto split: option.splits)
  from turn_inv_step [OF assms Cons.prems(1) e]
  have "turn_inv base td1 (n + (if completes e s then 1 else 0)) (step v e s)" .
  from Cons.IH [OF this es] show ?case
    by (simp add: add.assoc)
qed

lemma typing_idle_turn_inv:
  "typing_idle s \<Longrightarrow> turn_inv (messages s) ([], False) 0 s"
  by (auto simp: typing_idle_def turn_inv_def timers_agree_def bubble_def)

lemma completions_append:
  "completions v (es1 @ es2) s = completions v es1 s + completions v es2 (run v es1 s)"
  by (induction es1 arbitrary: s) simp_all

lemma drain_typing:
  assumes "settled base"
  shows "turn_inv base td n s \<Longrightarrow> length (textQueue s) + typeTimers s \<le> k \<Longrightarrow>
         turn_inv base td n (run v (replicate k TypeTick) s)
         \<and> textQueue (run v (replicate k TypeTick) s) = []
         \<and> \<not> isTyping (run v (replicate k TypeTick) s)
         \<and> completions v (replicate k TypeTick) s = 0"
proof (induction k arbitrary: s)
  case 0
  then show ?case by (auto simp: turn_inv_def timers_agree_def)
next
  case (Suc k)
  have inv1: "turn_inv base td n (typeTick s)"
    using turn_inv_TypeTick [OF assms Suc.prems(1)] .
  from Suc.prems(1) have ta: "timers_agree s" by (simp add: turn_inv_def)
  have "length (textQueue (typeTick s)) + typeTimers (typeTick s) \<le> k"
  proof (cases "typeTimers s > 0")
    case False
    with ta show ?thesis by (auto simp: typeTick_def timers_agree_def)
  next
    case True
    with ta Suc.prems(2) show ?thesis
      by (cases "textQueue s") (auto simp: typeTick_def typeNextChar_def timers_agree_def)
  qed
  from Suc.IH [OF inv1 this] show ?case
    by (simp add: completes_def)
qed

lemma turn_inv_queue_bound:
  "turn_inv base td n s \<Longrightarrow> length (textQueue s) + typeTimers s \<le> Suc (length (fst td))"
  by (auto simp: turn_inv_def timers_agree_def split: if_splits)

lemma turn_inv_completed:
  assumes "settled base" "turn_inv base (t, True) n s" "textQueue s = []" "\<not> isTyping s"
  shows "turn_inv base (t, True) 1 (waitTick s) \<and> n + (if completes WaitTick s then 1 else 0) = 1"
proof -
  have "n + (if completes WaitTick s then 1 else 0) = 1"
    using assms(2,3,4) by (auto simp: turn_inv_def completes_def split: if_splits)
  with turn_inv_WaitTick [OF assms(1,2)] show ?thesis by simp
qed

text \<open>
  A turn that nothing disturbs. Take a state where nothing of the typing effect is under way
  and the last message is not streaming, and the events of one turn alone: its \<^verbatim>\<open>text_delta\<close>
  chunks, whose concatenation in the order of arrival is \<open>t\<close>, then its \<^verbatim>\<open>text_done\<close> if \<open>d\<close>,
  with the timers firing at any point. At every moment of the turn the assistant bubble either
  streams and holds a prefix of \<open>t\<close>, the rest of \<open>t\<close> being exactly the queue, with no
  completion so far; or \<^verbatim>\<open>text_done\<close> has come, the queue is empty, the bubble holds all of
  \<open>t\<close> and has stopped streaming, and the turn has been completed exactly once. So the
  streaming flag is never cleared before the whole text is rendered. And once \<^verbatim>\<open>text_done\<close>
  has come, letting the typing timer fire more than \<open>length t\<close> times and the poll once
  completes the turn: the bubble holds \<open>t\<close>, one completion has happened, and nothing is left
  under way.
\<close>

theorem streaming_turn:
  assumes "typing_idle s"
    and "messages s = [] \<or> \<not> streaming (last (messages s))"
    and "turn_text ([], False) es = Some (t, d)"
  shows "((completions v es s = 0
           \<and> waitTimers (run v es s) = (if d then 1 else 0)
           \<and> (\<exists>typed. t = typed @ textQueue (run v es s)
                \<and> messages (run v es s) = messages s @ bubble typed True))
         \<or> (completions v es s = 1 \<and> d
           \<and> textQueue (run v es s) = [] \<and> \<not> isTyping (run v es s)
           \<and> messages (run v es s) = messages s @ bubble t False))
       \<and> (d \<longrightarrow> (\<forall>k > length t.
             messages (run v (es @ replicate k TypeTick @ [WaitTick]) s) = messages s @ bubble t False
           \<and> completions v (es @ replicate k TypeTick @ [WaitTick]) s = 1
           \<and> typing_idle (run v (es @ replicate k TypeTick @ [WaitTick]) s)))"
proof -
  let ?base = "messages s"
  have st: "settled ?base" using assms(2) by (simp add: settled_def)
  have inv: "turn_inv ?base (t, d) (completions v es s) (run v es s)"
    using turn_inv_run [OF st typing_idle_turn_inv [OF assms(1)] assms(3), of v] by simp
  have first: "(completions v es s = 0
           \<and> waitTimers (run v es s) = (if d then 1 else 0)
           \<and> (\<exists>typed. t = typed @ textQueue (run v es s)
                \<and> messages (run v es s) = messages s @ bubble typed True))
         \<or> (completions v es s = 1 \<and> d
           \<and> textQueue (run v es s) = [] \<and> \<not> isTyping (run v es s)
           \<and> messages (run v es s) = messages s @ bubble t False)"
    using inv by (auto simp: turn_inv_def split: if_splits)
  have second: "messages (run v (es @ replicate k TypeTick @ [WaitTick]) s) = messages s @ bubble t False
           \<and> completions v (es @ replicate k TypeTick @ [WaitTick]) s = 1
           \<and> typing_idle (run v (es @ replicate k TypeTick @ [WaitTick]) s)"
    if d: d and k: "k > length t" for k
  proof -
    let ?s1 = "run v es s"
    let ?s2 = "run v (replicate k TypeTick) ?s1"
    from inv d have inv': "turn_inv ?base (t, True) (completions v es s) ?s1" by simp
    have "length (textQueue ?s1) + typeTimers ?s1 \<le> k"
      using turn_inv_queue_bound [OF inv'] k by simp
    from drain_typing [OF st inv' this, of v]
    have d2: "turn_inv ?base (t, True) (completions v es s) ?s2"
      "textQueue ?s2 = []" "\<not> isTyping ?s2" "completions v (replicate k TypeTick) ?s1 = 0"
      by simp_all
    from turn_inv_completed [OF st d2(1,2,3)]
    have fin: "turn_inv ?base (t, True) 1 (waitTick ?s2)"
      "completions v es s + (if completes WaitTick ?s2 then 1 else 0) = 1"
      by simp_all
    have r: "run v (es @ replicate k TypeTick @ [WaitTick]) s = waitTick ?s2"
      by (simp add: run_append)
    have c: "completions v (es @ replicate k TypeTick @ [WaitTick]) s = 1"
      using fin(2) d2(4) by (simp add: completions_append)
    from fin(1) have "messages (waitTick ?s2) = messages s @ bubble t False"
      "typing_idle (waitTick ?s2)"
      by (auto simp: turn_inv_def typing_idle_def timers_agree_def)
    with r c show ?thesis by simp
  qed
  from first second show ?thesis by blast
qed

theorem streaming_turn_witness:
  "messages (run False
      ([Server (TextDelta (ascii ''Hi'')), TypeTick, Server (TextDelta (ascii ''!'')), Server TextDone]
       @ replicate 4 TypeTick @ [WaitTick])
      initial_state)
     = bubble (ascii ''Hi!'') False
   \<and> completions False
      ([Server (TextDelta (ascii ''Hi'')), TypeTick, Server (TextDelta (ascii ''!'')), Server TextDone]
       @ replicate 4 TypeTick @ [WaitTick])
      initial_state = 1"
proof -
  have a: "typing_idle initial_state"
    by (simp add: typing_idle_def initial_state_def)
  have b: "messages initial_state = [] \<or> \<not> streaming (last (messages initial_state))"
    by (simp add: initial_state_def)
  have c: "turn_text ([], False)
      [Server (TextDelta (ascii ''Hi'')), TypeTick, Server (TextDelta (ascii ''!'')), Server TextDone]
      = Some (ascii ''Hi!'', True)"
    by (simp add: turn_event_def ascii_def)
  have d: "length (ascii ''Hi!'') < 4"
    by (simp add: ascii_def)
  from streaming_turn [OF a b c, of False] d
  have "messages (run False
      ([Server (TextDelta (ascii ''Hi'')), TypeTick, Server (TextDelta (ascii ''!'')), Server TextDone]
       @ replicate 4 TypeTick @ [WaitTick])
      initial_state)
     = messages initial_state @ bubble (ascii ''Hi!'') False
   \<and> completions False
      ([Server (TextDelta (ascii ''Hi'')), TypeTick, Server (TextDelta (ascii ''!'')), Server TextDone]
       @ replicate 4 TypeTick @ [WaitTick])
      initial_state = 1"
    by blast
  then show ?thesis by (simp add: initial_state_def)
qed


text \<open>
  C7. The characters of a turn are rendered by a timer, one at a time, each into the last
  message if that is a streaming assistant bubble and into a new bubble otherwise. A message
  that joins the chat while characters are still queued therefore ends the bubble. Of the
  reply "Hello", "He" is rendered when (first run) the address card of the turn's own
  \<^verbatim>\<open>metadata\<close> joins the chat at the end of its animation, or (second run) the user sends a
  message: the rest, "llo", goes into a second bubble behind the card or the user's message.
  When everything has come to rest, no message holds the concatenation "Hello", and the first
  bubble still has its streaming flag, which nothing will clear.
\<close>

theorem message_during_typing_splits_reply:
  "messages (run False
      [Server (TextDelta (ascii ''Hello'')), TypeTick, Server TextDone,
       Server (Metadata (card_metadata AddressConfirm (ascii ''from''))),
       IntervalTick 0, IntervalTick 0, IntervalTick 0, IntervalTick 0, CardTimeout 0,
       TypeTick, TypeTick, TypeTick, TypeTick, WaitTick]
      initial_state)
     = bubble (ascii ''He'') True
       @ [address_card AddressConfirm (Some (ascii ''from'')) (Some (selection_data (ascii ''from'')))]
       @ bubble (ascii ''llo'') False
   \<and> typing_idle (run False
      [Server (TextDelta (ascii ''Hello'')), TypeTick, Server TextDone,
       Server (Metadata (card_metadata AddressConfirm (ascii ''from''))),
       IntervalTick 0, IntervalTick 0, IntervalTick 0, IntervalTick 0, CardTimeout 0,
       TypeTick, TypeTick, TypeTick, TypeTick, WaitTick]
      initial_state)
   \<and> messages (run False
      [Server (TextDelta (ascii ''Hello'')), TypeTick, SendMessage (Some (ascii ''ok'')),
       TypeTick, TypeTick, TypeTick, TypeTick, Server TextDone]
      (initial_state\<lparr> ws := Some Open, isConnected := True \<rparr>))
     = bubble (ascii ''He'') True @ [user_msg (ascii ''ok'')] @ bubble (ascii ''llo'') False
   \<and> typing_idle (run False
      [Server (TextDelta (ascii ''Hello'')), TypeTick, SendMessage (Some (ascii ''ok'')),
       TypeTick, TypeTick, TypeTick, TypeTick, Server TextDone]
      (initial_state\<lparr> ws := Some Open, isConnected := True \<rparr>))"
  by (simp add: initial_state_def ascii_def processTextQueue_def typeNextChar_def typeTick_def
      waitTick_def waitForTyping_def appendChar_def finishStreaming_def streaming_msg_def
      bubble_def handleMetadata_def handleAddressComponent_def card_metadata_def
      component_role_def isAlreadyConfirmed_def intervalTick_def cardTimeout_def
      address_card_def card_type_def selection_data_def address_key_def Let_def
      sendMessage_def trim_def is_js_space_def isAddItemRequest_def addItemKeywords_def
      ws_send_def user_msg_def typing_idle_def)

subsection \<open>Selecting an address\<close>







subsection \<open>Address cards\<close>

lemma role_cards_append [simp]: "role_cards k (xs @ ys) = role_cards k xs + role_cards k ys"
  by (simp add: role_cards_def)

lemma role_cards_Nil [simp]: "role_cards k [] = 0"
  by (simp add: role_cards_def)

lemma role_cards_single:
  "role_cards k [m] = (if is_address_card m \<and> address_key (addressType m) = k then 1 else 0)"
  by (simp add: role_cards_def)

lemma role_cards_map_same:
  assumes "\<And>m. is_address_card (f m) = is_address_card m"
    and "\<And>m. addressType (f m) = addressType m"
  shows "role_cards k (map f ms) = role_cards k ms"
  by (induction ms) (simp_all add: role_cards_def assms)

lemma role_cards_confirmCards [simp]: "role_cards k (confirmCards a ms) = role_cards k ms"
  unfolding confirmCards_def by (rule role_cards_map_same) (simp_all add: is_address_card_def)

lemma role_cards_selectCards [simp]: "role_cards k (selectCards a ms) = role_cards k ms"
  unfolding selectCards_def by (rule role_cards_map_same) (simp_all add: is_address_card_def)

lemma role_cards_confirmCard [simp]: "role_cards k (confirmCard a ms) = role_cards k ms"
  unfolding confirmCard_def by (rule role_cards_map_same) (simp_all add: is_address_card_def)

lemma role_cards_history [simp]: "role_cards k (map history_msg ms) = 0"
  by (induction ms) (simp_all add: role_cards_def history_msg_def is_address_card_def)

lemma role_cards_last_changed:
  assumes "ms \<noteq> []" "is_address_card m = is_address_card (last ms)"
    "addressType m = addressType (last ms)"
  shows "role_cards k (butlast ms @ [m]) = role_cards k ms"
proof -
  have "role_cards k ms = role_cards k (butlast ms @ [last ms])"
    using assms(1) by simp
  also have "\<dots> = role_cards k (butlast ms) + role_cards k [last ms]"
    by (rule role_cards_append)
  finally show ?thesis
    using assms(2,3) by (simp add: role_cards_single)
qed

lemma role_cards_appendChar [simp]: "role_cards k (appendChar c ms) = role_cards k ms"
proof (cases "ms \<noteq> [] \<and> role (last ms) = Assistant \<and> streaming (last ms)")
  case True
  then have "appendChar c ms = butlast ms @ [(last ms)\<lparr>content := content (last ms) @ [c]\<rparr>]"
    unfolding appendChar_def by (rule if_P)
  moreover have "role_cards k (butlast ms @ [(last ms)\<lparr>content := content (last ms) @ [c]\<rparr>])
      = role_cards k ms"
    using True by (intro role_cards_last_changed) (simp_all add: is_address_card_def)
  ultimately show ?thesis by simp
next
  case False
  then have "appendChar c ms = ms @ [streaming_msg c]"
    unfolding appendChar_def by (rule if_not_P)
  then show ?thesis
    by (simp add: role_cards_single streaming_msg_def is_address_card_def)
qed

lemma role_cards_finishStreaming [simp]: "role_cards k (finishStreaming ms) = role_cards k ms"
proof (cases "ms \<noteq> [] \<and> streaming (last ms)")
  case True
  then have "finishStreaming ms = butlast ms @ [(last ms)\<lparr>streaming := False\<rparr>]"
    unfolding finishStreaming_def by (rule if_P)
  moreover have "role_cards k (butlast ms @ [(last ms)\<lparr>streaming := False\<rparr>]) = role_cards k ms"
    using True by (intro role_cards_last_changed) (simp_all add: is_address_card_def)
  ultimately show ?thesis by simp
next
  case False
  then have "finishStreaming ms = ms"
    unfolding finishStreaming_def by (rule if_not_P)
  then show ?thesis by simp
qed

lemma role_cards_remove_nth:
  assumes "i < length xs"
  shows "role_cards k (take i xs @ drop (Suc i) xs) + role_cards k [xs ! i] = role_cards k xs"
proof -
  have "xs = take i xs @ [xs ! i] @ drop (Suc i) xs"
    using assms by (simp add: id_take_nth_drop)
  then have "role_cards k xs = role_cards k (take i xs @ [xs ! i] @ drop (Suc i) xs)"
    by simp
  then show ?thesis
    by (simp only: role_cards_append)
qed

lemma role_animations_updates [simp]:
  "role_animations k (s\<lparr>inputValue := x_inputValue\<rparr>) = role_animations k s"
  "role_animations k (s\<lparr>isConnected := x_isConnected\<rparr>) = role_animations k s"
  "role_animations k (s\<lparr>isLoading := x_isLoading\<rparr>) = role_animations k s"
  "role_animations k (s\<lparr>currentPhase := x_currentPhase\<rparr>) = role_animations k s"
  "role_animations k (s\<lparr>fieldsStatus := x_fieldsStatus\<rparr>) = role_animations k s"
  "role_animations k (s\<lparr>quickOptions := x_quickOptions\<rparr>) = role_animations k s"
  "role_animations k (s\<lparr>uiComponent := x_uiComponent\<rparr>) = role_animations k s"
  "role_animations k (s\<lparr>completion := x_completion\<rparr>) = role_animations k s"
  "role_animations k (s\<lparr>pendingItems := x_pendingItems\<rparr>) = role_animations k s"
  "role_animations k (s\<lparr>confirmedItems := x_confirmedItems\<rparr>) = role_animations k s"
  "role_animations k (s\<lparr>isRecognizing := x_isRecognizing\<rparr>) = role_animations k s"
  "role_animations k (s\<lparr>recognitionStep := x_recognitionStep\<rparr>) = role_animations k s"
  "role_animations k (s\<lparr>itemsJustConfirmed := x_itemsJustConfirmed\<rparr>) = role_animations k s"
  "role_animations k (s\<lparr>isVerifyingAddress := x_isVerifyingAddress\<rparr>) = role_animations k s"
  "role_animations k (s\<lparr>addressVerifyStep := x_addressVerifyStep\<rparr>) = role_animations k s"
  "role_animations k (s\<lparr>pendingAddressData := x_pendingAddressData\<rparr>) = role_animations k s"
  "role_animations k (s\<lparr>textQueue := x_textQueue\<rparr>) = role_animations k s"
  "role_animations k (s\<lparr>isTyping := x_isTyping\<rparr>) = role_animations k s"
  "role_animations k (s\<lparr>lastOptions := x_lastOptions\<rparr>) = role_animations k s"
  "role_animations k (s\<lparr>selectedOptions := x_selectedOptions\<rparr>) = role_animations k s"
  "role_animations k (s\<lparr>ws := x_ws\<rparr>) = role_animations k s"
  "role_animations k (s\<lparr>sessionToken := x_sessionToken\<rparr>) = role_animations k s"
  "role_animations k (s\<lparr>fileInputValue := x_fileInputValue\<rparr>) = role_animations k s"
  "role_animations k (s\<lparr>sent := x_sent\<rparr>) = role_animations k s"
  "role_animations k (s\<lparr>uploads := x_uploads\<rparr>) = role_animations k s"
  "role_animations k (s\<lparr>inFlightUploads := x_inFlightUploads\<rparr>) = role_animations k s"
  "role_animations k (s\<lparr>notices := x_notices\<rparr>) = role_animations k s"
  "role_animations k (s\<lparr>typeTimers := x_typeTimers\<rparr>) = role_animations k s"
  "role_animations k (s\<lparr>waitTimers := x_waitTimers\<rparr>) = role_animations k s"
  "role_animations k (s\<lparr>messages := x_messages\<rparr>) = role_animations k s"
  "role_animations k (s\<lparr>addedAddressCards := x_addedAddressCards\<rparr>) = role_animations k s"
  by (simp_all add: role_animations_def)

lemma card_total_updates [simp]:
  "card_total k (s\<lparr>inputValue := x_inputValue\<rparr>) = card_total k s"
  "card_total k (s\<lparr>isConnected := x_isConnected\<rparr>) = card_total k s"
  "card_total k (s\<lparr>isLoading := x_isLoading\<rparr>) = card_total k s"
  "card_total k (s\<lparr>currentPhase := x_currentPhase\<rparr>) = card_total k s"
  "card_total k (s\<lparr>fieldsStatus := x_fieldsStatus\<rparr>) = card_total k s"
  "card_total k (s\<lparr>quickOptions := x_quickOptions\<rparr>) = card_total k s"
  "card_total k (s\<lparr>uiComponent := x_uiComponent\<rparr>) = card_total k s"
  "card_total k (s\<lparr>completion := x_completion\<rparr>) = card_total k s"
  "card_total k (s\<lparr>pendingItems := x_pendingItems\<rparr>) = card_total k s"
  "card_total k (s\<lparr>confirmedItems := x_confirmedItems\<rparr>) = card_total k s"
  "card_total k (s\<lparr>isRecognizing := x_isRecognizing\<rparr>) = card_total k s"
  "card_total k (s\<lparr>recognitionStep := x_recognitionStep\<rparr>) = card_total k s"
  "card_total k (s\<lparr>itemsJustConfirmed := x_itemsJustConfirmed\<rparr>) = card_total k s"
  "card_total k (s\<lparr>isVerifyingAddress := x_isVerifyingAddress\<rparr>) = card_total k s"
  "card_total k (s\<lparr>addressVerifyStep := x_addressVerifyStep\<rparr>) = card_total k s"
  "card_total k (s\<lparr>pendingAddressData := x_pendingAddressData\<rparr>) = card_total k s"
  "card_total k (s\<lparr>textQueue := x_textQueue\<rparr>) = card_total k s"
  "card_total k (s\<lparr>isTyping := x_isTyping\<rparr>) = card_total k s"
  "card_total k (s\<lparr>lastOptions := x_lastOptions\<rparr>) = card_total k s"
  "card_total k (s\<lparr>selectedOptions := x_selectedOptions\<rparr>) = card_total k s"
  "card_total k (s\<lparr>ws := x_ws\<rparr>) = card_total k s"
  "card_total k (s\<lparr>sessionToken := x_sessionToken\<rparr>) = card_total k s"
  "card_total k (s\<lparr>fileInputValue := x_fileInputValue\<rparr>) = card_total k s"
  "card_total k (s\<lparr>sent := x_sent\<rparr>) = card_total k s"
  "card_total k (s\<lparr>uploads := x_uploads\<rparr>) = card_total k s"
  "card_total k (s\<lparr>inFlightUploads := x_inFlightUploads\<rparr>) = card_total k s"
  "card_total k (s\<lparr>notices := x_notices\<rparr>) = card_total k s"
  "card_total k (s\<lparr>typeTimers := x_typeTimers\<rparr>) = card_total k s"
  "card_total k (s\<lparr>waitTimers := x_waitTimers\<rparr>) = card_total k s"
  "card_total k (s\<lparr>addedAddressCards := x_addedAddressCards\<rparr>) = card_total k s"
  by (simp_all add: card_total_def)

lemma card_total_messages:
  "role_cards k ms = role_cards k (messages s) \<Longrightarrow> card_total k (s\<lparr>messages := ms\<rparr>) = card_total k s"
  by (simp add: card_total_def)

lemma card_total_messages_plain:
  "\<not> is_address_card m \<Longrightarrow> card_total k (s\<lparr>messages := messages s @ [m]\<rparr>) = card_total k s"
  by (simp add: card_total_def role_cards_single)

lemma ws_send_cards:
  "ws_send rs fr s = Some s' \<Longrightarrow>
     card_total k s' = card_total k s \<and> addedAddressCards s' = addedAddressCards s
     \<and> messages s' = messages s"
  by (auto simp: ws_send_def split: ready_state.splits)

lemma card_total_typeNextChar [simp]: "card_total k (typeNextChar s) = card_total k s"
  by (simp add: typeNextChar_def card_total_messages split: list.splits)

lemma flags_typeNextChar [simp]: "addedAddressCards (typeNextChar s) = addedAddressCards s"
  by (simp add: typeNextChar_def split: list.splits)

lemma card_total_processTextQueue [simp]: "card_total k (processTextQueue s) = card_total k s"
  by (simp add: processTextQueue_def)

lemma flags_processTextQueue [simp]: "addedAddressCards (processTextQueue s) = addedAddressCards s"
  by (simp add: processTextQueue_def)

lemma card_total_waitForTyping [simp]: "card_total k (waitForTyping s) = card_total k s"
  by (simp add: waitForTyping_def card_total_messages)

lemma flags_waitForTyping [simp]: "addedAddressCards (waitForTyping s) = addedAddressCards s"
  by (simp add: waitForTyping_def)

lemma not_card_user_msg [simp]: "\<not> is_address_card (user_msg c)"
  by (simp add: user_msg_def is_address_card_def)

lemma not_card_items_card [simp]: "\<not> is_address_card (items_card its)"
  by (simp add: items_card_def is_address_card_def)

lemma card_total_sendMessage [simp]: "card_total k (sendMessage c s) = card_total k s"
  by (auto simp: sendMessage_def ws_send_def Let_def card_total_messages_plain
      split: option.splits ready_state.splits)

lemma flags_sendMessage [simp]: "addedAddressCards (sendMessage c s) = addedAddressCards s"
  by (auto simp: sendMessage_def ws_send_def Let_def split: option.splits ready_state.splits)

lemma card_total_handleQuickOption [simp]: "card_total k (handleQuickOption opt s) = card_total k s"
  by (simp add: handleQuickOption_def Let_def)

lemma flags_handleQuickOption [simp]:
  "addedAddressCards (handleQuickOption opt s) = addedAddressCards s"
  by (simp add: handleQuickOption_def Let_def)

lemma card_total_confirmSelectedOptions [simp]:
  "card_total k (confirmSelectedOptions s) = card_total k s"
  by (simp add: confirmSelectedOptions_def Let_def)

lemma flags_confirmSelectedOptions [simp]:
  "addedAddressCards (confirmSelectedOptions s) = addedAddressCards s"
  by (simp add: confirmSelectedOptions_def Let_def)

lemma card_total_resetSession [simp]: "card_total k (resetSession s) = card_total k s"
  by (auto simp: resetSession_def ws_send_def split: option.splits ready_state.splits)

lemma flags_resetSession [simp]: "addedAddressCards (resetSession s) = addedAddressCards s"
  by (auto simp: resetSession_def ws_send_def split: option.splits ready_state.splits)

lemma card_total_confirmItems [simp]: "card_total k (confirmItems s) = card_total k s"
  by (auto simp: confirmItems_def confirmItems_updates_def ws_send_def card_total_messages_plain
      split: option.splits ready_state.splits)

lemma flags_confirmItems [simp]: "addedAddressCards (confirmItems s) = addedAddressCards s"
  by (auto simp: confirmItems_def confirmItems_updates_def ws_send_def
      split: option.splits ready_state.splits)

lemma card_total_handleAddressSelected [simp]:
  "card_total k (handleAddressSelected a addr s) = card_total k s"
  by (auto simp: handleAddressSelected_def ws_send_def card_total_messages
      split: option.splits ready_state.splits)

lemma flags_handleAddressSelected [simp]:
  "addedAddressCards (handleAddressSelected a addr s) = addedAddressCards s"
  by (auto simp: handleAddressSelected_def ws_send_def split: option.splits ready_state.splits)

lemma card_total_handleAddressConfirmed [simp]:
  "card_total k (handleAddressConfirmed a ok s) = card_total k s"
  by (auto simp: handleAddressConfirmed_def ws_send_def Let_def card_total_messages
      split: option.splits ready_state.splits)

lemma flags_handleAddressConfirmed [simp]:
  "addedAddressCards (handleAddressConfirmed a ok s) = addedAddressCards s"
  by (auto simp: handleAddressConfirmed_def ws_send_def Let_def
      split: option.splits ready_state.splits)

lemma card_total_handleFileSelected [simp]:
  "card_total k (handleFileSelected f s) = card_total k s"
  by (auto simp: handleFileSelected_def Let_def split: option.splits)

lemma flags_handleFileSelected [simp]:
  "addedAddressCards (handleFileSelected f s) = addedAddressCards s"
  by (auto simp: handleFileSelected_def Let_def split: option.splits)

lemma card_total_handleFileSelected_resume [simp]:
  "card_total k (handleFileSelected_resume r s) = card_total k s"
  by (auto simp: handleFileSelected_resume_def Let_def ws_send_def
      split: option.splits upload_response.splits ready_state.splits)

lemma flags_handleFileSelected_resume [simp]:
  "addedAddressCards (handleFileSelected_resume r s) = addedAddressCards s"
  by (auto simp: handleFileSelected_resume_def Let_def ws_send_def
      split: option.splits upload_response.splits ready_state.splits)

lemma card_total_handleQuickOptions [simp]:
  "card_total k (handleQuickOptions q s) = card_total k s"
  by (simp add: handleQuickOptions_def)

lemma flags_handleQuickOptions [simp]:
  "addedAddressCards (handleQuickOptions q s) = addedAddressCards s"
  by (simp add: handleQuickOptions_def)

lemma cards_bounded_updates [simp]:
  "cards_bounded k (s\<lparr>inputValue := x_inputValue\<rparr>) = cards_bounded k s"
  "cards_bounded k (s\<lparr>isConnected := x_isConnected\<rparr>) = cards_bounded k s"
  "cards_bounded k (s\<lparr>isLoading := x_isLoading\<rparr>) = cards_bounded k s"
  "cards_bounded k (s\<lparr>currentPhase := x_currentPhase\<rparr>) = cards_bounded k s"
  "cards_bounded k (s\<lparr>fieldsStatus := x_fieldsStatus\<rparr>) = cards_bounded k s"
  "cards_bounded k (s\<lparr>quickOptions := x_quickOptions\<rparr>) = cards_bounded k s"
  "cards_bounded k (s\<lparr>uiComponent := x_uiComponent\<rparr>) = cards_bounded k s"
  "cards_bounded k (s\<lparr>completion := x_completion\<rparr>) = cards_bounded k s"
  "cards_bounded k (s\<lparr>pendingItems := x_pendingItems\<rparr>) = cards_bounded k s"
  "cards_bounded k (s\<lparr>confirmedItems := x_confirmedItems\<rparr>) = cards_bounded k s"
  "cards_bounded k (s\<lparr>isRecognizing := x_isRecognizing\<rparr>) = cards_bounded k s"
  "cards_bounded k (s\<lparr>recognitionStep := x_recognitionStep\<rparr>) = cards_bounded k s"
  "cards_bounded k (s\<lparr>itemsJustConfirmed := x_itemsJustConfirmed\<rparr>) = cards_bounded k s"
  "cards_bounded k (s\<lparr>isVerifyingAddress := x_isVerifyingAddress\<rparr>) = cards_bounded k s"
  "cards_bounded k (s\<lparr>addressVerifyStep := x_addressVerifyStep\<rparr>) = cards_bounded k s"
  "cards_bounded k (s\<lparr>pendingAddressData := x_pendingAddressData\<rparr>) = cards_bounded k s"
  "cards_bounded k (s\<lparr>textQueue := x_textQueue\<rparr>) = cards_bounded k s"
  "cards_bounded k (s\<lparr>isTyping := x_isTyping\<rparr>) = cards_bounded k s"
  "cards_bounded k (s\<lparr>lastOptions := x_lastOptions\<rparr>) = cards_bounded k s"
  "cards_bounded k (s\<lparr>selectedOptions := x_selectedOptions\<rparr>) = cards_bounded k s"
  "cards_bounded k (s\<lparr>ws := x_ws\<rparr>) = cards_bounded k s"
  "cards_bounded k (s\<lparr>sessionToken := x_sessionToken\<rparr>) = cards_bounded k s"
  "cards_bounded k (s\<lparr>fileInputValue := x_fileInputValue\<rparr>) = cards_bounded k s"
  "cards_bounded k (s\<lparr>sent := x_sent\<rparr>) = cards_bounded k s"
  "cards_bounded k (s\<lparr>uploads := x_uploads\<rparr>) = cards_bounded k s"
  "cards_bounded k (s\<lparr>inFlightUploads := x_inFlightUploads\<rparr>) = cards_bounded k s"
  "cards_bounded k (s\<lparr>notices := x_notices\<rparr>) = cards_bounded k s"
  "cards_bounded k (s\<lparr>typeTimers := x_typeTimers\<rparr>) = cards_bounded k s"
  "cards_bounded k (s\<lparr>waitTimers := x_waitTimers\<rparr>) = cards_bounded k s"
  by (simp_all add: cards_bounded_def)

lemma cards_bounded_same:
  "card_total k s' \<le> card_total k s \<Longrightarrow> addedAddressCards s' k = addedAddressCards s k \<Longrightarrow>
   cards_bounded k s \<Longrightarrow> cards_bounded k s'"
  by (simp add: cards_bounded_def)

lemma card_total_intervalTick [simp]: "card_total k (intervalTick i s) = card_total k s"
proof (cases "i < length (stepIntervals s)")
  case False
  then show ?thesis by (simp add: intervalTick_def)
next
  case True
  let ?xs = "stepIntervals s"
  have i: "i < length (map snd ?xs)" using True by simp
  have a: "role_cards k (map snd (take i ?xs @ drop (Suc i) ?xs)) + role_cards k [snd (?xs ! i)]
      = role_cards k (map snd ?xs)"
    using role_cards_remove_nth [OF i, of k] True by (simp add: take_map drop_map)
  have b: "map snd (?xs[i := (n, snd (?xs ! i))]) = map snd ?xs" for n
    using True by (simp add: map_update list_update_same_conv)
  show ?thesis
  proof (cases "fst (?xs ! i) + 1 \<ge> 4")
    case True
    then have "intervalTick i s =
        s\<lparr> addressVerifyStep := fst (?xs ! i) + 1,
           stepIntervals := take i ?xs @ drop (Suc i) ?xs,
           cardTimeouts := cardTimeouts s @ [snd (?xs ! i)] \<rparr>"
      using \<open>i < length ?xs\<close> by (simp add: intervalTick_def Let_def)
    then show ?thesis using a
      by (simp add: card_total_def role_animations_def)
  next
    case False
    then have "intervalTick i s =
        s\<lparr> addressVerifyStep := fst (?xs ! i) + 1,
           stepIntervals := ?xs[i := (fst (?xs ! i) + 1, snd (?xs ! i))] \<rparr>"
      using \<open>i < length ?xs\<close> by (simp add: intervalTick_def Let_def)
    then show ?thesis using b
      by (simp add: card_total_def role_animations_def)
  qed
qed

lemma flags_intervalTick [simp]: "addedAddressCards (intervalTick i s) = addedAddressCards s"
  by (simp add: intervalTick_def Let_def)

lemma card_total_cardTimeout [simp]: "card_total k (cardTimeout i s) = card_total k s"
proof (cases "i < length (cardTimeouts s)")
  case False
  then show ?thesis by (simp add: cardTimeout_def)
next
  case True
  from role_cards_remove_nth [OF True, of k] True show ?thesis
    by (simp add: cardTimeout_def card_total_def role_animations_def)
qed

lemma flags_cardTimeout [simp]: "addedAddressCards (cardTimeout i s) = addedAddressCards s"
  by (simp add: cardTimeout_def)

lemma card_total_typeTick [simp]: "card_total k (typeTick s) = card_total k s"
  by (simp add: typeTick_def)

lemma flags_typeTick [simp]: "addedAddressCards (typeTick s) = addedAddressCards s"
  by (simp add: typeTick_def)

lemma card_total_waitTick [simp]: "card_total k (waitTick s) = card_total k s"
  by (simp add: waitTick_def)

lemma flags_waitTick [simp]: "addedAddressCards (waitTick s) = addedAddressCards s"
  by (simp add: waitTick_def)

lemma is_address_card_address_card [simp]: "is_address_card (address_card t a d)"
  by (simp add: address_card_def is_address_card_def card_type_def)

lemma addressType_address_card [simp]: "addressType (address_card t a d) = a"
  by (simp add: address_card_def)

lemma handleAddressComponent_duplicate:
  assumes "addedAddressCards s (address_key (component_role uic))"
  shows "handleAddressComponent v uic fs s = s
       \<or> handleAddressComponent v uic fs s
           = s\<lparr> messages := confirmCards (component_role uic)
                               (messages s) \<rparr>"
  using assms by (simp add: handleAddressComponent_def Let_def)

lemma cards_bounded_handleAddressComponent:
  assumes "cards_bounded k s"
  shows "cards_bounded k (handleAddressComponent v uic fs s)"
proof (cases "ui_type uic = AddressConfirm \<or> ui_type uic = AddressSelection")
  case False
  then show ?thesis using assms by (simp add: handleAddressComponent_def)
next
  case comp: True
  let ?a = "component_role uic"
  show ?thesis
  proof (cases "\<not> addedAddressCards s (address_key ?a) \<and> \<not> isAlreadyConfirmed fs ?a \<and> \<not> v")
    case True
    then have eq: "handleAddressComponent v uic fs s =
        s\<lparr> addedAddressCards := (addedAddressCards s)(address_key ?a := True),
           isVerifyingAddress := True,
           addressVerifyStep := 0,
           pendingAddressData :=
             Some \<lparr> pa_type = card_type (ui_type uic), pa_addressType = ?a, pa_data = ui_data uic \<rparr>,
           stepIntervals := stepIntervals s @ [(0, address_card (ui_type uic) ?a (ui_data uic))] \<rparr>"
      using comp by (simp add: handleAddressComponent_def Let_def)
    show ?thesis
    proof (cases "address_key ?a = k")
      case same: True
      with True assms have "card_total k s = 0" by (simp add: cards_bounded_def)
      then show ?thesis
        unfolding eq using same
        by (simp add: cards_bounded_def card_total_def role_animations_def role_cards_single)
    next
      case False
      then have "k \<noteq> address_key ?a" by blast
      with False show ?thesis
        unfolding eq using assms
        by (simp add: cards_bounded_def card_total_def role_animations_def role_cards_single)
    qed
  next
    case False
    then have "handleAddressComponent v uic fs s = s
       \<or> handleAddressComponent v uic fs s = s\<lparr> messages := confirmCards ?a (messages s) \<rparr>"
      using comp by (auto simp: handleAddressComponent_def Let_def)
    then show ?thesis using assms
      by (auto simp: cards_bounded_def card_total_messages)
  qed
qed

lemma cards_bounded_handleQuickOptions [simp]:
  "cards_bounded k (handleQuickOptions q s) = cards_bounded k s"
  by (simp add: handleQuickOptions_def)

lemma cards_bounded_handleMetadata:
  "cards_bounded k s \<Longrightarrow> cards_bounded k (handleMetadata v d s)"
  by (simp add: handleMetadata_def Let_def cards_bounded_handleAddressComponent
      split: option.splits)

lemma cards_bounded_typing [simp]:
  "cards_bounded k (processTextQueue s) = cards_bounded k s"
  "cards_bounded k (waitForTyping s) = cards_bounded k s"
  by (simp_all add: cards_bounded_def)

lemma cards_bounded_handleServerMessage:
  assumes "cards_bounded k s" "\<not> is_reset (Server m)"
  shows "cards_bounded k (handleServerMessage v m s)"
proof (cases m)
  case (Metadata d)
  then show ?thesis using assms(1) by (simp add: cards_bounded_handleMetadata)
next
  case (MessageHistory h)
  then show ?thesis using assms(1)
    by (cases h) (simp_all add: cards_bounded_def card_total_def)
next
  case (SessionReset token fs)
  with assms(2) show ?thesis by simp
next
  case (AddressConfirmed a)
  have "cards_bounded k (s\<lparr>messages := confirmCards a (messages s)\<rparr>)"
    using assms(1) by (simp add: cards_bounded_def card_total_messages)
  with AddressConfirmed assms(1) show ?thesis
    by simp
qed (use assms(1) in \<open>simp_all add: Let_def split: option.splits\<close>)

lemma cards_bounded_step:
  assumes "cards_bounded k s" "\<not> is_reset e"
  shows "cards_bounded k (step v e s)"
proof (cases e)
  case (Server m)
  with assms show ?thesis by (simp add: cards_bounded_handleServerMessage)
qed (use assms(1) in \<open>simp_all add: cards_bounded_def deleteItem_def\<close>)

lemma cards_bounded_run:
  "cards_bounded k s \<Longrightarrow> \<forall>e \<in> set es. \<not> is_reset e \<Longrightarrow> cards_bounded k (run v es s)"
  by (induction es arbitrary: s) (simp_all add: cards_bounded_step)

lemma handleQuickOptions_fields [simp]:
  "messages (handleQuickOptions q s) = messages s"
  "stepIntervals (handleQuickOptions q s) = stepIntervals s"
  "cardTimeouts (handleQuickOptions q s) = cardTimeouts s"
  "notices (handleQuickOptions q s) = notices s"
  "sent (handleQuickOptions q s) = sent s"
  by (simp_all add: handleQuickOptions_def)

lemma length_confirmCards [simp]: "length (confirmCards a ms) = length ms"
  by (simp add: confirmCards_def)

lemma handleAddressComponent_duplicate_fields:
  assumes "addedAddressCards t (address_key (component_role uic))"
  shows "stepIntervals (handleAddressComponent v uic fs t) = stepIntervals t
       \<and> cardTimeouts (handleAddressComponent v uic fs t) = cardTimeouts t
       \<and> notices (handleAddressComponent v uic fs t) = notices t
       \<and> sent (handleAddressComponent v uic fs t) = sent t
       \<and> addedAddressCards (handleAddressComponent v uic fs t) = addedAddressCards t
       \<and> role_cards k (messages (handleAddressComponent v uic fs t)) = role_cards k (messages t)
       \<and> length (messages (handleAddressComponent v uic fs t)) = length (messages t)"
  using handleAddressComponent_duplicate [OF assms, of v fs] by auto

lemma handleMetadata_duplicate:
  assumes "addedAddressCards s (address_key (component_role uic))" "md_ui_component d = Some uic"
  shows "stepIntervals (handleMetadata v d s) = stepIntervals s
       \<and> cardTimeouts (handleMetadata v d s) = cardTimeouts s
       \<and> notices (handleMetadata v d s) = notices s
       \<and> sent (handleMetadata v d s) = sent s
       \<and> addedAddressCards (handleMetadata v d s) = addedAddressCards s
       \<and> role_cards k (messages (handleMetadata v d s)) = role_cards k (messages s)
       \<and> length (messages (handleMetadata v d s)) = length (messages s)"
proof -
  let ?s1 = "case md_current_phase d of None \<Rightarrow> s | Some p \<Rightarrow> s\<lparr>currentPhase := p\<rparr>"
  let ?s2 = "case md_fields_status d of None \<Rightarrow> ?s1 | Some f \<Rightarrow> ?s1\<lparr>fieldsStatus := f\<rparr>"
  let ?s3 = "case md_quick_options d of None \<Rightarrow> ?s2 | Some q \<Rightarrow> handleQuickOptions q ?s2"
  have same: "stepIntervals ?s3 = stepIntervals s" "cardTimeouts ?s3 = cardTimeouts s"
    "notices ?s3 = notices s" "sent ?s3 = sent s" "addedAddressCards ?s3 = addedAddressCards s"
    "messages ?s3 = messages s"
    by (simp_all split: option.splits)
  from assms(1) same(5) have "addedAddressCards ?s3 (address_key (component_role uic))" by simp
  from handleAddressComponent_duplicate_fields [OF this, of v "md_fields_status d" k]
  show ?thesis
    using assms(2) same by (simp add: handleMetadata_def Let_def split: option.splits)
qed

text \<open>
  C6, as stated, fails: a second address component for the role \<open>from\<close>, arriving while the
  first one's animation runs, raises no error of any kind. No toast is shown and nothing is
  sent; the client only records the new component, and the first animation goes on alone.
\<close>

theorem duplicate_address_card_raises_no_error:
  "notices (run False
      [Server (Metadata (card_metadata AddressConfirm (ascii ''from''))),
       Server (Metadata (card_metadata AddressSelection (ascii ''from'')))] initial_state) = []
   \<and> sent (run False
      [Server (Metadata (card_metadata AddressConfirm (ascii ''from''))),
       Server (Metadata (card_metadata AddressSelection (ascii ''from'')))] initial_state) = []
   \<and> stepIntervals (run False
      [Server (Metadata (card_metadata AddressConfirm (ascii ''from''))),
       Server (Metadata (card_metadata AddressSelection (ascii ''from'')))] initial_state)
     = [(0, address_card AddressConfirm (Some (ascii ''from'')) (Some (selection_data (ascii ''from''))))]
   \<and> uiComponent (run False
      [Server (Metadata (card_metadata AddressConfirm (ascii ''from''))),
       Server (Metadata (card_metadata AddressSelection (ascii ''from'')))] initial_state)
     = \<lparr> ui_type = AddressSelection, ui_data = Some (selection_data (ascii ''from'')) \<rparr>"
  by (simp add: handleMetadata_def handleAddressComponent_def card_metadata_def component_role_def
      selection_data_def isAlreadyConfirmed_def initial_state_def Let_def)

text \<open>
  C6, amended. A \<^verbatim>\<open>metadata\<close> with an address component for a role whose flag in
  \<^verbatim>\<open>addedAddressCardsRef\<close> is raised is dropped in silence: it starts no animation, adds no
  card, shows no error and sends nothing. Hence, along any run of events without a session
  reset, from a state where the role's cards and animations number at most one and none
  without the flag (the initial state is one, and so is the state after a reset that finds no
  animation of the role under way), the chat never shows more than one address card of the
  role, confirmed or not.
\<close>

theorem address_cards_deduplicated:
  "(addedAddressCards s (address_key (component_role uic)) \<and> md_ui_component d = Some uic \<longrightarrow>
      stepIntervals (handleServerMessage v (Metadata d) s) = stepIntervals s
    \<and> cardTimeouts (handleServerMessage v (Metadata d) s) = cardTimeouts s
    \<and> role_cards k (messages (handleServerMessage v (Metadata d) s)) = role_cards k (messages s)
    \<and> length (messages (handleServerMessage v (Metadata d) s)) = length (messages s)
    \<and> notices (handleServerMessage v (Metadata d) s) = notices s
    \<and> sent (handleServerMessage v (Metadata d) s) = sent s)
   \<and> (cards_bounded k s \<and> (\<forall>e \<in> set es. \<not> is_reset e) \<longrightarrow>
        cards_bounded k (run v es s) \<and> role_cards k (messages (run v es s)) \<le> 1)
   \<and> cards_bounded k initial_state
   \<and> (role_animations k s = 0 \<longrightarrow> cards_bounded k (resetState s))"
proof -
  have a: "stepIntervals (handleServerMessage v (Metadata d) s) = stepIntervals s
    \<and> cardTimeouts (handleServerMessage v (Metadata d) s) = cardTimeouts s
    \<and> role_cards k (messages (handleServerMessage v (Metadata d) s)) = role_cards k (messages s)
    \<and> length (messages (handleServerMessage v (Metadata d) s)) = length (messages s)
    \<and> notices (handleServerMessage v (Metadata d) s) = notices s
    \<and> sent (handleServerMessage v (Metadata d) s) = sent s"
    if "addedAddressCards s (address_key (component_role uic))" "md_ui_component d = Some uic"
    using handleMetadata_duplicate [OF that, of v k] by simp
  have b: "cards_bounded k (run v es s) \<and> role_cards k (messages (run v es s)) \<le> 1"
    if "cards_bounded k s" "\<forall>e \<in> set es. \<not> is_reset e"
  proof -
    have "cards_bounded k (run v es s)" using that by (rule cards_bounded_run)
    moreover from this have "role_cards k (messages (run v es s)) \<le> 1"
      by (auto simp: cards_bounded_def card_total_def split: if_splits)
    ultimately show ?thesis by simp
  qed
  have c: "cards_bounded k initial_state"
    by (simp add: cards_bounded_def card_total_def role_animations_def initial_state_def)
  have e: "cards_bounded k (resetState s)" if "role_animations k s = 0"
    using that by (simp add: cards_bounded_def card_total_def role_animations_def resetState_def)
  from a b c e show ?thesis by blast
qed


theorem address_cards_deduplicated_witness:
  "cards_bounded (ascii ''from'')
     (run False
        [Server (Metadata (card_metadata AddressConfirm (ascii ''from''))),
         IntervalTick 0, IntervalTick 0, IntervalTick 0, IntervalTick 0, CardTimeout 0,
         Server (Metadata (card_metadata AddressSelection (ascii ''from'')))]
        initial_state)
   \<and> role_cards (ascii ''from'')
       (messages (run False
          [Server (Metadata (card_metadata AddressConfirm (ascii ''from''))),
           IntervalTick 0, IntervalTick 0, IntervalTick 0, IntervalTick 0, CardTimeout 0,
           Server (Metadata (card_metadata AddressSelection (ascii ''from'')))]
          initial_state)) \<le> 1"
proof -
  let ?es = "[Server (Metadata (card_metadata AddressConfirm (ascii ''from''))),
         IntervalTick 0, IntervalTick 0, IntervalTick 0, IntervalTick 0, CardTimeout 0,
         Server (Metadata (card_metadata AddressSelection (ascii ''from'')))]"
  have h1: "cards_bounded (ascii ''from'') initial_state"
    by (simp add: cards_bounded_def card_total_def role_animations_def initial_state_def)
  have h2: "\<forall>e \<in> set ?es. \<not> is_reset e"
    by simp
  from h1 h2 address_cards_deduplicated
    [where k = "ascii ''from''" and s = initial_state and es = ?es and v = False]
  show ?thesis
    by blast
qed

text \<open>
  The amended statement starts from a state without a stray animation for a reason:
  \<^verbatim>\<open>resetState\<close> lowers the flags but does not clear the interval and the timeout of an
  animation under way. A reset in the middle of an animation, followed by a new component
  for the same role, ends with two cards of that role in the chat.
\<close>

lemma reset_during_animation_adds_two_cards:
  "role_cards (ascii ''from'') (messages (run False
      [Server (Metadata (card_metadata AddressConfirm (ascii ''from''))),
       Server (SessionReset token []),
       Server (Metadata (card_metadata AddressConfirm (ascii ''from''))),
       IntervalTick 0, IntervalTick 0, IntervalTick 0, IntervalTick 0,
       IntervalTick 0, IntervalTick 0, IntervalTick 0, IntervalTick 0,
       CardTimeout 0, CardTimeout 0] initial_state)) = 2"
  by (simp add: handleMetadata_def handleAddressComponent_def card_metadata_def component_role_def
      selection_data_def isAlreadyConfirmed_def initial_state_def Let_def resetState_def
      intervalTick_def cardTimeout_def role_cards_def address_card_def is_address_card_def
      card_type_def address_key_def)

end
